theory Spec2Isabelle
  imports Complex_Main "HOL-Library.Sublist"
begin

section \<open>JSON values and the JavaScript operations the pipeline applies to them\<close>

text \<open>
  The scraper client, the harvester and the orchestrator are TypeScript classes that pass
  decoded JSON around. A decoded body is a value of \<open>json\<close>; a property that is absent
  (JavaScript's \<open>undefined\<close>) is \<open>None\<close>. A thrown \<open>Error\<close> is a value \<open>Exn msg\<close>
  carrying its message; a function that can throw returns \<open>exn + 'a\<close>.
\<close>

datatype json =
    JNull
  | JBool bool
  | JNum rat
  | JStr string
  | JArr "json list"
  | JObj "(string \<times> json) list"

datatype exn = Exn string

text \<open>\<open>x.k\<close> for a value that is not \<open>null\<close>: only objects carry named properties here
  (a later duplicate key wins, as in \<open>JSON.parse\<close>).\<close>

fun get_prop :: "json \<Rightarrow> string \<Rightarrow> json option" where
  "get_prop (JObj kvs) k = map_of (rev kvs) k"
| "get_prop _ k = None"

text \<open>JavaScript truthiness of a (possibly undefined) value.\<close>

fun truthy :: "json option \<Rightarrow> bool" where
  "truthy None = False"
| "truthy (Some JNull) = False"
| "truthy (Some (JBool b)) = b"
| "truthy (Some (JNum n)) = (n \<noteq> 0)"
| "truthy (Some (JStr s)) = (s \<noteq> [])"
| "truthy (Some (JArr xs)) = True"
| "truthy (Some (JObj kvs)) = True"

fun isArray :: "json \<Rightarrow> bool" where
  "isArray (JArr xs) = True"
| "isArray _ = False"

text \<open>\<open>typeof x === 'object'\<close> (true of arrays, objects and \<open>null\<close>).\<close>

fun typeof_object :: "json \<Rightarrow> bool" where
  "typeof_object JNull = True"
| "typeof_object (JArr xs) = True"
| "typeof_object (JObj kvs) = True"
| "typeof_object _ = False"

text \<open>\<open>Object.keys(x).length\<close> for a value that is not \<open>null\<close>.\<close>

fun keys_length :: "json \<Rightarrow> nat" where
  "keys_length (JObj kvs) = length (remdups (map fst kvs))"
| "keys_length (JArr xs) = length xs"
| "keys_length (JStr s) = length s"
| "keys_length _ = 0"

section \<open>Scraper client: polling a snapshot (\<open>BrightdataScraper.waitForCompletion\<close>)\<close>

text \<open>What one HTTP exchange with the provider yields: \<open>fetch\<close> rejects, the status is
  not 2xx (\<open>response.ok\<close> is false), the body is not JSON, or a decoded body.\<close>

datatype http_reply =
    FetchThrows string
  | NotOk nat string
  | BadJson
  | Body json

text \<open>The value \<open>waitForCompletion\<close> resolves to:
  \<open>{ success: boolean; data?: any; error?: string }\<close>.\<close>

record wait_result =
  w_success :: bool
  w_data :: "json option"
  w_error :: "json option"

definition maxWaitTime :: int where "maxWaitTime = 900000"
definition initialCheckDelay :: int where "initialCheckDelay = 15000"
definition checkInterval :: int where "checkInterval = 30000"

text \<open>One pass through the body of the \<open>while\<close> loop, up to the point where the loop either
  returns (\<open>Some r\<close>) or sleeps for \<open>checkInterval\<close> and goes round again (\<open>None\<close>). The
  \<open>catch\<close> of the loop body sleeps as the fall-through does, so every throwing case
  (a rejected fetch, a non-2xx status, an undecodable body, \<open>Object.keys(null)\<close>) is
  \<open>None\<close> too.\<close>

definition check_snapshot :: "http_reply \<Rightarrow> wait_result option" where
  "check_snapshot r =
     (case r of
        FetchThrows m \<Rightarrow> None
      | NotOk code body \<Rightarrow> None
      | BadJson \<Rightarrow> None
      | Body snapshot \<Rightarrow>
          if snapshot = JNull then None
          else if truthy (get_prop snapshot ''status'') then
            (if get_prop snapshot ''status'' = Some (JStr ''completed'') then
               Some \<lparr>w_success = True, w_data = get_prop snapshot ''data'', w_error = None\<rparr>
             else if get_prop snapshot ''status'' = Some (JStr ''failed'') then
               Some \<lparr>w_success = False, w_data = None,
                     w_error = (if truthy (get_prop snapshot ''error'') then get_prop snapshot ''error''
                                else Some (JStr ''Scraping failed''))\<rparr>
             else None)
          else if isArray snapshot \<or> (typeof_object snapshot \<and> keys_length snapshot > 0) then
            Some \<lparr>w_success = True, w_data = Some snapshot, w_error = None\<rparr>
          else None)"

text \<open>The loop. \<open>replies n\<close> is the provider's answer to the \<open>n\<close>-th poll of this snapshot
  and \<open>elapsed\<close> is \<open>Date.now() - startTime\<close> in milliseconds; the clock is advanced by the two sleeps
  only (the requests themselves take no time in this model, which is the schedule with
  the most polls). The loop ends because every round adds \<open>checkInterval\<close>.\<close>

function poll_loop :: "(nat \<Rightarrow> http_reply) \<Rightarrow> nat \<Rightarrow> int \<Rightarrow> wait_result" where
  "poll_loop replies attempt elapsed =
     (if elapsed < maxWaitTime then
        (case check_snapshot (replies attempt) of
           Some r \<Rightarrow> r
         | None \<Rightarrow> poll_loop replies (Suc attempt) (elapsed + checkInterval))
      else \<lparr>w_success = False, w_data = None,
            w_error = Some (JStr ''Timeout waiting for scraping completion'')\<rparr>)"
  by pat_completeness auto
termination
  by (relation "measure (\<lambda>(replies, attempt, elapsed). nat (maxWaitTime - elapsed))")
     (auto simp: maxWaitTime_def checkInterval_def)

definition waitForCompletion :: "(nat \<Rightarrow> http_reply) \<Rightarrow> wait_result" where
  "waitForCompletion replies = poll_loop replies 0 initialCheckDelay"

section \<open>Data model (\<open>memory/schema.ts\<close>, \<open>schema.sql\<close>)\<close>

datatype content_type = CT_json | CT_html | CT_text

record claim_candidate =
  cc_predicate :: string
  cc_object :: string
  cc_confidence :: rat

text \<open>The \<open>extraction\<close> attached to an evidence. \<open>x_claims\<close> is \<open>None\<close> when the decoded
  value has no iterable \<open>claims\<close> (the \<open>for ... of\<close> over it throws), and an entry of the
  list is \<open>None\<close> when the candidate is \<open>null\<close> (reading its \<open>predicate\<close> throws).\<close>

record extraction =
  x_entities :: "json list"
  x_claims :: "claim_candidate option list option"

record Evidence =
  ev_id :: string
  ev_subject_id :: string
  ev_source_url :: string
  ev_collected_at :: string
  ev_content_text :: string
  ev_content_type :: content_type
  ev_hash :: string
  ev_extraction :: "extraction option"

text \<open>A claim's \<open>provenance_json\<close> is \<open>JSON.stringify({source, evidence_id, extracted_at})\<close>;
  the record holds the three parts and \<open>provenance_json\<close> below renders the string.\<close>

record provenance =
  pv_source :: string
  pv_evidence_id :: string
  pv_extracted_at :: string

record Claim =
  cl_id :: string
  cl_subject_id :: string
  cl_predicate :: string
  cl_object :: string
  cl_confidence :: rat
  cl_first_seen_at :: string
  cl_last_verified_at :: string
  cl_provenance :: provenance
  cl_policy_tags :: string

datatype run_status =
    St_intake | St_discover | St_fetch | St_normalize | St_extract | St_verify
  | St_upsert | St_synthesize | St_publish | St_error | St_completed

record SubjectRun =
  run_id :: string
  run_subject_name :: string
  run_user_id :: string
  run_state :: run_status
  run_evidence_count :: nat
  run_claims_count :: nat
  run_created_at :: string
  run_updated_at :: string
  run_error_message :: "string option"

record VerificationResult =
  vr_approved :: bool
  vr_policy_tags :: "string list option"
  vr_reason :: "string option"

datatype input_type = linkedin | search

section \<open>The world outside the code, and the state the code changes\<close>

text \<open>What an LLM request yields: \<open>fetch\<close> rejects, the response is not ok, its text does not
  decode (\<open>response.json()\<close> or \<open>JSON.parse\<close> throws), or a decoded value.\<close>

datatype 'a llm_reply = LlmThrows string | LlmNotOk nat | LlmBadJson string | LlmParsed 'a

datatype trigger_input = ByUrl string | ByName string string | ByUrls "string list"

datatype d1_call =
    SelectRun string
  | UpdateRun string run_status
  | InsertRun SubjectRun
  | InsertEvidence Evidence
  | InsertClaim Claim

text \<open>
  Everything the code cannot decide is a field of the environment, and every theorem
  below holds for all environments: the provider's answers to trigger requests and to
  polls, the two LLM endpoints, which D1 statements fail (\<open>Some msg\<close> is a thrown
  \<open>Error(msg)\<close>), the identifiers
  \<open>crypto.randomUUID()\<close> returns (the \<open>n\<close>-th draw) and the clock's reading when \<open>n\<close>
  identifiers have been drawn, and the platform's pure string functions whose results
  are never inspected here (SHA-256, \<open>JSON.stringify\<close>, \<open>String\<close>, \<open>encodeURIComponent\<close>,
  and the field-by-field copies the scraper makes of a profile and of a search hit).
\<close>

record env =
  trigger_reply :: "trigger_input \<Rightarrow> http_reply"
  snapshot_replies :: "json \<Rightarrow> nat \<Rightarrow> http_reply"
  extraction_llm :: "Evidence \<Rightarrow> extraction option llm_reply"
  verification_llm :: "Claim \<Rightarrow> VerificationResult llm_reply"
  d1_fail :: "d1_call \<Rightarrow> string option"
  randomUUID :: "nat \<Rightarrow> string"
  toISOString :: "nat \<Rightarrow> string"
  sha256_hex :: "string \<Rightarrow> string"
  json_stringify :: "json \<Rightarrow> string"
  to_String :: "json option \<Rightarrow> string"
  encodeURIComponent :: "string \<Rightarrow> string"
  profile_record :: "json \<Rightarrow> string \<Rightarrow> json"
  search_record :: "json \<Rightarrow> json"

text \<open>The embedding model and the Vectorize index are a second environment, handed only
  to the code that talks to them: \<open>None\<close> from \<open>embedding_ai\<close> is a failed or malformed
  embedding response, \<open>Some msg\<close> from \<open>vectorize_fail\<close> a failed upsert of that vector
  id.\<close>

record vec_env =
  embedding_ai :: "string \<Rightarrow> rat list option"
  vectorize_fail :: "string \<Rightarrow> string option"

record canonical =
  subject_runs :: "SubjectRun list"
  evidence_tbl :: "Evidence list"
  claims_tbl :: "Claim list"

record vector_row =
  v_id :: string
  v_values :: "rat list"
  v_subject_id :: string

datatype store_write = D1Write string | VectorWrite string

text \<open>The state: the D1 database, the Vectorize index, the number of identifiers drawn,
  the number of POSTs made to the provider's trigger endpoint, the two values the
  orchestrator keeps in its Durable Object storage, and the log of store writes
  attempted (in program order).\<close>

record world =
  d1 :: canonical
  vindex :: "vector_row list"
  ticks :: nat
  trigger_calls :: nat
  stored_inputType :: "input_type option"
  stored_maxApiCalls :: "int option"
  writes :: "store_write list"

definition now :: "env \<Rightarrow> world \<Rightarrow> string" where
  "now e s = toISOString e (ticks s)"

definition draw_uuid :: "env \<Rightarrow> world \<Rightarrow> string \<times> world" where
  "draw_uuid e s = (randomUUID e (ticks s), s\<lparr>ticks := Suc (ticks s)\<rparr>)"

text \<open>Sequencing of steps that may throw: the state reached when a step throws is kept,
  as the effects made before a JavaScript exception are.\<close>

definition bind_x ::
  "(world \<Rightarrow> (exn + 'a) \<times> world) \<Rightarrow> ('a \<Rightarrow> world \<Rightarrow> (exn + 'b) \<times> world) \<Rightarrow>
     world \<Rightarrow> (exn + 'b) \<times> world" where
  "bind_x m f s = (case m s of (Inl x, s') \<Rightarrow> (Inl x, s') | (Inr a, s') \<Rightarrow> f a s')"

definition return_x :: "'a \<Rightarrow> world \<Rightarrow> (exn + 'a) \<times> world" where
  "return_x a s = (Inr a, s)"

definition throw_x :: "string \<Rightarrow> world \<Rightarrow> (exn + 'a) \<times> world" where
  "throw_x msg s = (Inl (Exn msg), s)"

section \<open>Canonical store (\<open>memory/canonical.ts\<close>)\<close>

text \<open>An \<open>INSERT\<close> into a table whose \<open>id\<close> is the primary key: D1 refuses a second row
  with an id already present, and the statement fails when the environment says so.\<close>

definition createEvidence :: "env \<Rightarrow> Evidence \<Rightarrow> world \<Rightarrow> (exn + Evidence) \<times> world" where
  "createEvidence e evidence s =
     (let (u, s1) = draw_uuid e s;
          newEvidence = evidence\<lparr>ev_id := ''evid_'' @ u\<rparr>;
          s2 = s1\<lparr>writes := writes s1 @ [D1Write (ev_id newEvidence)]\<rparr>
      in case d1_fail e (InsertEvidence newEvidence) of
           Some msg \<Rightarrow> (Inl (Exn msg), s2)
         | None \<Rightarrow>
             if ev_id newEvidence \<in> set (map ev_id (evidence_tbl (d1 s2))) then
               (Inl (Exn ''UNIQUE constraint failed: evidence.id''), s2)
             else
               (Inr newEvidence,
                s2\<lparr>d1 := (d1 s2)\<lparr>evidence_tbl := evidence_tbl (d1 s2) @ [newEvidence]\<rparr>\<rparr>))"

definition createClaim :: "env \<Rightarrow> Claim \<Rightarrow> world \<Rightarrow> (exn + Claim) \<times> world" where
  "createClaim e claim s =
     (let (u, s1) = draw_uuid e s;
          newClaim = claim\<lparr>cl_id := ''claim_'' @ u\<rparr>;
          s2 = s1\<lparr>writes := writes s1 @ [D1Write (cl_id newClaim)]\<rparr>
      in case d1_fail e (InsertClaim newClaim) of
           Some msg \<Rightarrow> (Inl (Exn msg), s2)
         | None \<Rightarrow>
             if cl_id newClaim \<in> set (map cl_id (claims_tbl (d1 s2))) then
               (Inl (Exn ''UNIQUE constraint failed: claims.id''), s2)
             else
               (Inr newClaim,
                s2\<lparr>d1 := (d1 s2)\<lparr>claims_tbl := claims_tbl (d1 s2) @ [newClaim]\<rparr>\<rparr>))"

definition getEvidenceBySubject :: "world \<Rightarrow> string \<Rightarrow> Evidence list" where
  "getEvidenceBySubject s subjectId =
     filter (\<lambda>ev. ev_subject_id ev = subjectId) (evidence_tbl (d1 s))"

definition createSubjectRun ::
  "env \<Rightarrow> string \<Rightarrow> string \<Rightarrow> world \<Rightarrow> (exn + SubjectRun) \<times> world" where
  "createSubjectRun e subjectName userId s =
     (let (u, s1) = draw_uuid e s;
          newRun = \<lparr>run_id = ''run_'' @ u, run_subject_name = subjectName,
                    run_user_id = userId, run_state = St_intake, run_evidence_count = 0,
                    run_claims_count = 0, run_created_at = now e s1,
                    run_updated_at = now e s1, run_error_message = None\<rparr>
      in case d1_fail e (InsertRun newRun) of
           Some msg \<Rightarrow> (Inl (Exn msg), s1)
         | None \<Rightarrow>
             if run_id newRun \<in> set (map run_id (subject_runs (d1 s1))) then
               (Inl (Exn ''UNIQUE constraint failed: subject_runs.id''), s1)
             else
               (Inr newRun,
                s1\<lparr>d1 := (d1 s1)\<lparr>subject_runs := subject_runs (d1 s1) @ [newRun]\<rparr>\<rparr>))"

definition getSubjectRun :: "env \<Rightarrow> string \<Rightarrow> world \<Rightarrow> (exn + SubjectRun option) \<times> world" where
  "getSubjectRun e runId s =
     (case d1_fail e (SelectRun runId) of
        Some msg \<Rightarrow> (Inl (Exn msg), s)
      | None \<Rightarrow> (Inr (find (\<lambda>r. run_id r = runId) (subject_runs (d1 s))), s))"

text \<open>The \<open>UPDATE\<close> built by \<open>updateSubjectRunStatus\<close>: status and \<open>updated_at\<close> always, each
  of the three optional columns only when its argument is given.\<close>

definition set_run ::
  "run_status \<Rightarrow> string \<Rightarrow> nat option \<Rightarrow> nat option \<Rightarrow> string option \<Rightarrow>
     SubjectRun \<Rightarrow> SubjectRun" where
  "set_run status t evidenceCount claimsCount errorMessage r =
     r\<lparr>run_state := status, run_updated_at := t,
       run_evidence_count := (case evidenceCount of Some n \<Rightarrow> n | None \<Rightarrow> run_evidence_count r),
       run_claims_count := (case claimsCount of Some n \<Rightarrow> n | None \<Rightarrow> run_claims_count r),
       run_error_message :=
         (case errorMessage of Some m \<Rightarrow> Some m | None \<Rightarrow> run_error_message r)\<rparr>"

definition updateSubjectRunStatus ::
  "env \<Rightarrow> string \<Rightarrow> run_status \<Rightarrow> nat option \<Rightarrow> nat option \<Rightarrow> string option \<Rightarrow>
     world \<Rightarrow> (exn + unit) \<times> world" where
  "updateSubjectRunStatus e runId status evidenceCount claimsCount errorMessage s =
     (case d1_fail e (UpdateRun runId status) of
        Some msg \<Rightarrow> (Inl (Exn msg), s)
      | None \<Rightarrow>
          (Inr (),
           s\<lparr>d1 := (d1 s)\<lparr>subject_runs :=
                map (\<lambda>r. if run_id r = runId
                          then set_run status (now e s) evidenceCount claimsCount errorMessage r
                          else r)
                    (subject_runs (d1 s))\<rparr>\<rparr>))"

section \<open>JavaScript string operations\<close>

text \<open>A natural number in decimal, as template strings print it.\<close>

definition digit_char :: "nat \<Rightarrow> char" where
  "digit_char d = ''0123456789'' ! d"

function show_nat :: "nat \<Rightarrow> string" where
  "show_nat n =
     (if n < 10 then [digit_char n]
      else show_nat (n div 10) @ [digit_char (n mod 10)])"
  by pat_completeness auto
termination
  by (relation "measure id") auto

text \<open>\<open>s.includes(t)\<close>: \<open>t\<close> occurs in \<open>s\<close> as a contiguous run.\<close>

definition js_includes :: "string \<Rightarrow> string \<Rightarrow> bool" where
  "js_includes s t = sublist t s"

definition lower_char :: "char \<Rightarrow> char" where
  "lower_char c =
     (if 65 \<le> (of_char c :: nat) \<and> (of_char c :: nat) \<le> 90
      then char_of ((of_char c :: nat) + 32) else c)"

definition toLowerCase :: "string \<Rightarrow> string" where
  "toLowerCase s = map lower_char s"

text \<open>White space as \<open>String.prototype.trim\<close> strips it, for the one-byte characters:
  tab, line feed, vertical tab, form feed, carriage return and space.\<close>

definition is_space :: "char \<Rightarrow> bool" where
  "is_space c = ((of_char c :: nat) \<in> {9, 10, 11, 12, 13, 32})"

definition js_trim :: "string \<Rightarrow> string" where
  "js_trim s = rev (dropWhile is_space (rev (dropWhile is_space s)))"

text \<open>\<open>s.split(c)\<close> for a one-character separator: never the empty list.\<close>

fun split_acc :: "char \<Rightarrow> string \<Rightarrow> string \<Rightarrow> string list" where
  "split_acc c acc [] = [rev acc]"
| "split_acc c acc (x # xs) =
     (if x = c then rev acc # split_acc c [] xs else split_acc c (x # acc) xs)"

definition js_split :: "string \<Rightarrow> char \<Rightarrow> string list" where
  "js_split s c = split_acc c [] s"

fun js_join :: "string list \<Rightarrow> string \<Rightarrow> string" where
  "js_join [] sep = []"
| "js_join [x] sep = x"
| "js_join (x # y # ys) sep = x @ sep @ js_join (y # ys) sep"

section \<open>Scraper client: the three operations (\<open>scraping/brightdata-scraper.ts\<close>)\<close>

text \<open>\<open>ScrapingResult\<close>, without its \<open>scrapedAt\<close> timestamp.\<close>

record ScrapingResult =
  sr_success :: bool
  sr_data :: "json option"
  sr_error :: "string option"
  sr_source :: string
  sr_snapshotId :: "json option"

definition scrape_failed :: "string \<Rightarrow> string \<Rightarrow> ScrapingResult" where
  "scrape_failed msg source =
     \<lparr>sr_success = False, sr_data = None, sr_error = Some msg, sr_source = source,
      sr_snapshotId = None\<rparr>"

definition scrape_ok :: "json \<Rightarrow> string \<Rightarrow> json \<Rightarrow> ScrapingResult" where
  "scrape_ok d source sid =
     \<lparr>sr_success = True, sr_data = Some d, sr_error = None, sr_source = source,
      sr_snapshotId = Some sid\<rparr>"

text \<open>Every POST to \<open>/datasets/v3/trigger\<close> is counted, whatever comes back.\<close>

definition count_trigger :: "world \<Rightarrow> world" where
  "count_trigger s = s\<lparr>trigger_calls := Suc (trigger_calls s)\<rparr>"

text \<open>The part the three operations share word for word: read the trigger response, throw
  on a non-2xx status, on an undecodable body, on an \<open>error\<close> field and on a missing
  \<open>snapshot_id\<close>; otherwise wait for the snapshot. The result is the snapshot id with what
  the wait resolved to.\<close>

definition read_trigger :: "env \<Rightarrow> trigger_input \<Rightarrow> exn + json" where
  "read_trigger e inp =
     (case trigger_reply e inp of
        FetchThrows m \<Rightarrow> Inl (Exn m)
      | NotOk code body \<Rightarrow>
          Inl (Exn (''Brightdata LinkedIn API error: '' @ show_nat code @ '' - '' @ body))
      | BadJson \<Rightarrow> Inl (Exn ''Unexpected token in JSON'')
      | Body triggerData \<Rightarrow>
          if triggerData = JNull then Inl (Exn ''Cannot read properties of null'')
          else if truthy (get_prop triggerData ''error'') then
            Inl (Exn (''Brightdata LinkedIn API error: '' @
                      to_String e (get_prop triggerData ''error'')))
          else if \<not> truthy (get_prop triggerData ''snapshot_id'') then
            Inl (Exn ''No snapshot ID returned from Brightdata'')
          else Inr (the (get_prop triggerData ''snapshot_id'')))"

definition trigger_and_wait :: "env \<Rightarrow> trigger_input \<Rightarrow> exn + json \<times> wait_result" where
  "trigger_and_wait e inp =
     (case read_trigger e inp of
        Inl x \<Rightarrow> Inl x
      | Inr sid \<Rightarrow> Inr (sid, waitForCompletion (snapshot_replies e sid)))"

text \<open>\<open>processLinkedInProfileData\<close>: the first element of a non-empty array, or the object
  itself; the record built from it is the environment's \<open>profile_record\<close>. Anything else
  gives the fallback record.\<close>

definition processLinkedInProfileData :: "env \<Rightarrow> string \<Rightarrow> json option \<Rightarrow> string \<Rightarrow> json" where
  "processLinkedInProfileData e t data profileUrl =
     (let profileData =
            (case data of
               Some (JArr (x # xs)) \<Rightarrow> Some x
             | Some (JObj kvs) \<Rightarrow> Some (JObj kvs)
             | _ \<Rightarrow> None)
      in if truthy profileData then profile_record e (the profileData) profileUrl
         else JObj [(''name'', JStr ''Unknown''), (''url'', JStr profileUrl),
                    (''input_url'', JStr profileUrl), (''timestamp'', JStr t)])"

definition scrapeProfile :: "env \<Rightarrow> string \<Rightarrow> world \<Rightarrow> ScrapingResult \<times> world" where
  "scrapeProfile e profileUrl s =
     (let s1 = count_trigger s in
      case trigger_and_wait e (ByUrl profileUrl) of
        Inl (Exn m) \<Rightarrow> (scrape_failed m profileUrl, s1)
      | Inr (sid, snapshotData) \<Rightarrow>
          if \<not> w_success snapshotData then
            (scrape_failed (''LinkedIn profile scraping failed: '' @
                            to_String e (w_error snapshotData)) profileUrl, s1)
          else
            (scrape_ok (processLinkedInProfileData e (now e s1) (w_data snapshotData) profileUrl)
               profileUrl sid, s1))"

text \<open>\<open>processLinkedInSearchResults\<close>: one record per element of an array (reading a field
  of a \<open>null\<close> element throws), no record for anything else.\<close>

definition processLinkedInSearchResults ::
  "env \<Rightarrow> string \<Rightarrow> json option \<Rightarrow> string \<Rightarrow> exn + json" where
  "processLinkedInSearchResults e t data searchQuery =
     (let items = (case data of Some (JArr xs) \<Rightarrow> xs | _ \<Rightarrow> [])
      in if JNull \<in> set items then Inl (Exn ''Cannot read properties of null'')
         else Inr (JObj [(''query'', JStr searchQuery),
                         (''results'', JArr (map (search_record e) items)),
                         (''totalResults'', JNum (of_nat (length items))),
                         (''scrapedAt'', JStr t)]))"

definition searchProfiles :: "env \<Rightarrow> string \<Rightarrow> world \<Rightarrow> ScrapingResult \<times> world" where
  "searchProfiles e searchQuery s =
     (let nameParts = js_split (js_trim searchQuery) (CHR '' '') in
      if length nameParts < 2 then
        (scrape_failed ''Search query must contain at least first and last name''
           ''linkedin-search'', s)
      else
        let firstName = hd nameParts;
            lastName = js_join (tl nameParts) '' '';
            s1 = count_trigger s
        in case trigger_and_wait e (ByName firstName lastName) of
             Inl (Exn m) \<Rightarrow> (scrape_failed m ''linkedin-search'', s1)
           | Inr (sid, snapshotData) \<Rightarrow>
               if \<not> w_success snapshotData then
                 (scrape_failed (''LinkedIn profile search failed: '' @
                                 to_String e (w_error snapshotData)) ''linkedin-search'', s1)
               else
                 (case processLinkedInSearchResults e (now e s1) (w_data snapshotData)
                         searchQuery of
                    Inl (Exn m) \<Rightarrow> (scrape_failed m ''linkedin-search'', s1)
                  | Inr d \<Rightarrow> (scrape_ok d ''linkedin-search'' sid, s1)))"

text \<open>
  Modelled from the spec: \<open>triggerScraping\<close>, which \<open>scrapeWebContent\<close> calls and the class
  does not define. By the spec's protocol (section 4.1) it POSTs one trigger request for
  the given inputs and succeeds exactly when the response carries a \<open>snapshot_id\<close> and no
  error; its result has the three fields \<open>scrapeWebContent\<close> reads.
\<close>

record trigger_result =
  tg_success :: bool
  tg_snapshotId :: "json option"
  tg_error :: "string option"

definition triggerScraping :: "env \<Rightarrow> string list \<Rightarrow> world \<Rightarrow> trigger_result \<times> world" where
  "triggerScraping e urls s =
     (let s1 = count_trigger s in
      case read_trigger e (ByUrls urls) of
        Inl (Exn m) \<Rightarrow> (\<lparr>tg_success = False, tg_snapshotId = None, tg_error = Some m\<rparr>, s1)
      | Inr sid \<Rightarrow> (\<lparr>tg_success = True, tg_snapshotId = Some sid, tg_error = None\<rparr>, s1))"

definition processWebContent :: "env \<Rightarrow> string \<Rightarrow> json option \<Rightarrow> string \<Rightarrow> json" where
  "processWebContent e t data url =
     JObj ([(''url'', JStr url)] @
           (case data of Some d \<Rightarrow> [(''content'', JStr (json_stringify e d))] | None \<Rightarrow> []) @
           [(''scrapedAt'', JStr t), (''source'', JStr ''brightdata'')])"

definition scrapeWebContent :: "env \<Rightarrow> string \<Rightarrow> world \<Rightarrow> ScrapingResult \<times> world" where
  "scrapeWebContent e url s =
     (let (triggerResponse, s1) = triggerScraping e [url] s in
      if \<not> tg_success triggerResponse \<or> \<not> truthy (tg_snapshotId triggerResponse) then
        (scrape_failed (''Failed to trigger web scraping: '' @
                        (case tg_error triggerResponse of Some m \<Rightarrow> m | None \<Rightarrow> ''undefined''))
           url, s1)
      else
        let snapshotData =
              waitForCompletion (snapshot_replies e (the (tg_snapshotId triggerResponse)))
        in if \<not> w_success snapshotData then
             (scrape_failed (''Web scraping failed: '' @ to_String e (w_error snapshotData))
                url, s1)
           else
             (scrape_ok (processWebContent e (now e s1) (w_data snapshotData) url) url
                (the (tg_snapshotId triggerResponse)), s1))"

section \<open>Harvester (\<open>agents/harvester.ts\<close>)\<close>

text \<open>What the harvester reads of a tool's result: \<open>success\<close>, \<open>evidence\<close>, \<open>error\<close> and
  (for the profile search) \<open>data\<close>, the summary object the tool builds.\<close>

record tool_result =
  tr_success :: bool
  tr_evidence :: "Evidence option"
  tr_error :: "string option"
  tr_data :: "json option"

definition tool_failed :: "string \<Rightarrow> tool_result" where
  "tool_failed msg =
     \<lparr>tr_success = False, tr_evidence = None, tr_error = Some msg, tr_data = None\<rparr>"

text \<open>\<open>HarvesterAgent.createEvidence\<close>: hash, fresh id, collection time.\<close>

definition harvester_createEvidence ::
  "env \<Rightarrow> string \<Rightarrow> string \<Rightarrow> string \<Rightarrow> content_type \<Rightarrow> world \<Rightarrow> Evidence \<times> world" where
  "harvester_createEvidence e subjectId sourceUrl content contentType s =
     (let hash = sha256_hex e content;
          (u, s1) = draw_uuid e s
      in (\<lparr>ev_id = ''evid_'' @ u, ev_subject_id = subjectId, ev_source_url = sourceUrl,
           ev_collected_at = now e s1, ev_content_text = content,
           ev_content_type = contentType, ev_hash = hash, ev_extraction = None\<rparr>, s1))"

definition fetchWebContent :: "env \<Rightarrow> string \<Rightarrow> world \<Rightarrow> (exn + string) \<times> world" where
  "fetchWebContent e url s =
     (let (scrapingResult, s1) = scrapeWebContent e url s in
      if \<not> sr_success scrapingResult then
        (Inl (Exn (''Failed to fetch web content: Error: Web scraping failed: '' @
                   (case sr_error scrapingResult of Some m \<Rightarrow> m | None \<Rightarrow> ''undefined''))), s1)
      else
        (Inr (case sr_data scrapingResult of
                None \<Rightarrow> []
              | Some d \<Rightarrow> (case get_prop d ''content'' of Some (JStr c) \<Rightarrow> c | _ \<Rightarrow> [])), s1))"

definition searchWebTool :: "env \<Rightarrow> string \<Rightarrow> string \<Rightarrow> world \<Rightarrow> tool_result \<times> world" where
  "searchWebTool e query subjectId s =
     (let searchUrl = ''https://www.google.com/search?q='' @ encodeURIComponent e query in
      case fetchWebContent e searchUrl s of
        (Inl (Exn m), s1) \<Rightarrow> (tool_failed (''Web search failed: Error: '' @ m), s1)
      | (Inr content, s1) \<Rightarrow>
          let (evidence, s2) = harvester_createEvidence e subjectId searchUrl content CT_html s1
          in (\<lparr>tr_success = True, tr_evidence = Some evidence, tr_error = None,
               tr_data = None\<rparr>, s2))"

text \<open>The profile tool builds its summary after the evidence: \<open>about.substring(0, 200)\<close>
  throws when \<open>about\<close> is truthy and not a string, and the tool's \<open>catch\<close> then reports a
  failure although the profile was scraped.\<close>

definition about_has_substring :: "json \<Rightarrow> bool" where
  "about_has_substring d =
     (case get_prop d ''about'' of Some (JStr a) \<Rightarrow> True | v \<Rightarrow> \<not> truthy v)"

definition scrapeLinkedInProfileTool ::
  "env \<Rightarrow> string \<Rightarrow> string \<Rightarrow> world \<Rightarrow> tool_result \<times> world" where
  "scrapeLinkedInProfileTool e subjectId profileUrl s =
     (let (scrapingResult, s1) = scrapeProfile e profileUrl s in
      if \<not> sr_success scrapingResult then
        (tool_failed (''Failed to scrape LinkedIn profile: '' @
                      (case sr_error scrapingResult of Some m \<Rightarrow> m | None \<Rightarrow> ''undefined'')), s1)
      else
        let d = the (sr_data scrapingResult);
            (evidence, s2) =
              harvester_createEvidence e subjectId profileUrl (json_stringify e d) CT_json s1
        in if \<not> about_has_substring d then
             (tool_failed ''LinkedIn profile scraping failed: TypeError'', s2)
           else
             (\<lparr>tr_success = True, tr_evidence = Some evidence, tr_error = None,
               tr_data = None\<rparr>, s2))"

definition or_else :: "json option \<Rightarrow> json \<Rightarrow> json" where
  "or_else v d = (if truthy v then the v else d)"

definition found_profile :: "env \<Rightarrow> json \<Rightarrow> json" where
  "found_profile e profile =
     JObj [(''name'', or_else (get_prop profile ''name'') (JStr ''Unknown'')),
           (''position'', or_else (get_prop profile ''position'') (JStr ''Unknown'')),
           (''current_company'',
              or_else (get_prop profile ''current_company_name'') (JStr ''Unknown'')),
           (''location'',
              (if truthy (get_prop profile ''city'')
               then JStr (to_String e (get_prop profile ''city'') @ '', '' @
                          to_String e (get_prop profile ''country_code''))
               else JStr ''Unknown'')),
           (''profile_url'', or_else (get_prop profile ''url'') (JStr ''Unknown''))]"

text \<open>The summary the search tool returns as \<open>data\<close>: an object with the four keys
  \<open>query\<close>, \<open>totalResults\<close>, \<open>foundProfiles\<close> and \<open>scraped_at\<close>.\<close>

definition search_summary :: "env \<Rightarrow> string \<Rightarrow> json \<Rightarrow> string \<Rightarrow> json list \<Rightarrow> json" where
  "search_summary e t searchData searchQuery results =
     JObj [(''query'', JStr searchQuery),
           (''totalResults'',
              or_else (get_prop searchData ''totalResults'') (JNum (of_nat (length results)))),
           (''foundProfiles'', JArr (map (found_profile e) results)),
           (''scraped_at'', or_else (get_prop searchData ''scrapedAt'') (JStr t))]"

definition searchLinkedInProfilesTool ::
  "env \<Rightarrow> string \<Rightarrow> string \<Rightarrow> world \<Rightarrow> tool_result \<times> world" where
  "searchLinkedInProfilesTool e subjectId searchQuery s =
     (let (searchResult, s1) = searchProfiles e searchQuery s in
      if \<not> sr_success searchResult then
        (tool_failed (''Failed to search LinkedIn profiles: '' @
                      (case sr_error searchResult of Some m \<Rightarrow> m | None \<Rightarrow> ''undefined'')), s1)
      else
        let searchData = the (sr_data searchResult);
            (evidence, s2) =
              harvester_createEvidence e subjectId ''linkedin://search''
                (json_stringify e searchData) CT_json s1;
            results = (case get_prop searchData ''results'' of Some (JArr xs) \<Rightarrow> xs | _ \<Rightarrow> [])
        in if JNull \<in> set results then
             (tool_failed ''LinkedIn profile search failed: TypeError'', s2)
           else
             (\<lparr>tr_success = True, tr_evidence = Some evidence, tr_error = None,
               tr_data = Some (search_summary e (now e s2) searchData searchQuery results)\<rparr>,
              s2))"

text \<open>\<open>profile.profile_url || profile.url\<close>, as the string sent to the provider.\<close>

definition profile_link :: "env \<Rightarrow> json \<Rightarrow> string" where
  "profile_link e profile =
     to_String e (if truthy (get_prop profile ''profile_url'')
                  then get_prop profile ''profile_url''
                  else get_prop profile ''url'')"

text \<open>The loop over \<open>profilesToScrape\<close>. The accumulator is the pair of the evidence list
  and \<open>apiCallsUsed\<close>; a \<open>null\<close> entry throws inside the loop's \<open>try\<close> and is skipped.\<close>

fun scrape_found_profiles ::
  "env \<Rightarrow> string \<Rightarrow> int \<Rightarrow> json list \<Rightarrow> Evidence list \<times> int \<Rightarrow> world \<Rightarrow>
     (Evidence list \<times> int) \<times> world" where
  "scrape_found_profiles e subjectName maxApiCalls [] acc s = (acc, s)"
| "scrape_found_profiles e subjectName maxApiCalls (profile # rest) acc s =
     (if snd acc \<ge> maxApiCalls then (acc, s)
      else if profile = JNull then scrape_found_profiles e subjectName maxApiCalls rest acc s
      else
        let (profileResult, s1) =
              scrapeLinkedInProfileTool e subjectName (profile_link e profile) s
        in if tr_success profileResult \<and> tr_evidence profileResult \<noteq> None then
             scrape_found_profiles e subjectName maxApiCalls rest
               (fst acc @ [the (tr_evidence profileResult)], snd acc + 1) s1
           else scrape_found_profiles e subjectName maxApiCalls rest acc s1)"

definition harvest_direct ::
  "env \<Rightarrow> string \<Rightarrow> Evidence list \<times> int \<Rightarrow> world \<Rightarrow> (Evidence list \<times> int) \<times> world" where
  "harvest_direct e subjectName acc s =
     (let (profileResult, s1) = scrapeLinkedInProfileTool e subjectName subjectName s in
      if tr_success profileResult \<and> tr_evidence profileResult \<noteq> None then
        ((fst acc @ [the (tr_evidence profileResult)], snd acc + 1), s1)
      else (acc, s1))"

definition harvest_web ::
  "env \<Rightarrow> string \<Rightarrow> string list \<Rightarrow> int \<Rightarrow> Evidence list \<times> int \<Rightarrow> world \<Rightarrow>
     (Evidence list \<times> int) \<times> world" where
  "harvest_web e subjectName sources maxApiCalls acc s =
     (if ''web'' \<in> set sources \<and> snd acc < maxApiCalls then
        let (searchResult, s1) = searchWebTool e subjectName subjectName s in
        if tr_success searchResult \<and> tr_evidence searchResult \<noteq> None then
          ((fst acc @ [the (tr_evidence searchResult)], snd acc + 1), s1)
        else (acc, s1)
      else (acc, s))"

definition harvest_linkedin ::
  "env \<Rightarrow> string \<Rightarrow> string list \<Rightarrow> int \<Rightarrow> Evidence list \<times> int \<Rightarrow> world \<Rightarrow>
     (Evidence list \<times> int) \<times> world" where
  "harvest_linkedin e subjectName sources maxApiCalls acc s =
     (if ''linkedin'' \<in> set sources \<and> snd acc < maxApiCalls then
        let (linkedinSearchResult, s1) = searchLinkedInProfilesTool e subjectName subjectName s in
        if tr_success linkedinSearchResult \<and> tr_evidence linkedinSearchResult \<noteq> None then
          let acc1 = (fst acc @ [the (tr_evidence linkedinSearchResult)], snd acc + 1);
              searchData = tr_data linkedinSearchResult
          in (case (if truthy searchData then get_prop (the searchData) ''results'' else None) of
                Some (JArr (r # rs)) \<Rightarrow>
                  let remainingCalls = maxApiCalls - snd acc1;
                      profilesToScrape = take (nat (min remainingCalls 5)) (r # rs)
                  in scrape_found_profiles e subjectName maxApiCalls profilesToScrape acc1 s1
              | _ \<Rightarrow> (acc1, s1))
        else (acc, s1)
      else (acc, s))"

text \<open>\<open>harvestEvidence\<close>. \<open>harvest_counted\<close> also returns the local \<open>apiCallsUsed\<close>.\<close>

definition harvest_counted ::
  "env \<Rightarrow> string \<Rightarrow> string list \<Rightarrow> input_type \<Rightarrow> int \<Rightarrow> world \<Rightarrow>
     (Evidence list \<times> int) \<times> world" where
  "harvest_counted e subjectName sources inputType maxApiCalls s =
     (if inputType = linkedin \<and>
         (js_includes subjectName ''linkedin.com/in/'' \<or>
          js_includes subjectName ''linkedin.com/company/'') then
        harvest_direct e subjectName ([], 0) s
      else
        let (acc1, s1) = harvest_web e subjectName sources maxApiCalls ([], 0) s
        in harvest_linkedin e subjectName sources maxApiCalls acc1 s1)"

definition harvestEvidence ::
  "env \<Rightarrow> string \<Rightarrow> string list \<Rightarrow> input_type \<Rightarrow> int \<Rightarrow> world \<Rightarrow> Evidence list \<times> world" where
  "harvestEvidence e subjectName sources inputType maxApiCalls s =
     (let (acc, s1) = harvest_counted e subjectName sources inputType maxApiCalls s
      in (fst acc, s1))"

section \<open>Compliance agent (\<open>agents/compliance.ts\<close>)\<close>

text \<open>\<open>JSON.stringify\<close> of the provenance object: the three string fields, quoted, with
  the quote and the backslash escaped (control characters, which \<open>JSON.stringify\<close> writes
  as backslash sequences too, are left as they are).\<close>

fun json_escape :: "string \<Rightarrow> string" where
  "json_escape [] = []"
| "json_escape (c # cs) =
     (if c = CHR 0x22 \<or> c = CHR 0x5C then CHR 0x5C # c # json_escape cs
      else c # json_escape cs)"

definition json_quote :: "string \<Rightarrow> string" where
  "json_quote s = CHR 0x22 # json_escape s @ [CHR 0x22]"

definition provenance_json :: "Claim \<Rightarrow> string" where
  "provenance_json c =
     ''{'' @ json_quote ''source'' @ '':'' @ json_quote (pv_source (cl_provenance c)) @ '','' @
     json_quote ''evidence_id'' @ '':'' @ json_quote (pv_evidence_id (cl_provenance c)) @ '','' @
     json_quote ''extracted_at'' @ '':'' @ json_quote (pv_extracted_at (cl_provenance c)) @ ''}''"

definition containsSensitiveInformation :: "Claim \<Rightarrow> bool" where
  "containsSensitiveInformation claim =
     (let sensitivePredicates =
            [''has_email'', ''email_address'', ''contact_email'', ''phone_number'',
             ''address'', ''personal_id'', ''ssn'', ''social_security''];
          sensitiveObjects =
            [''email'', ''phone'', ''address'', ''ssn'', ''social security'',
             ''personal'', ''private'', ''confidential''];
          predicateMatch = List.member sensitivePredicates (cl_predicate claim);
          objectMatch =
            list_ex (\<lambda>sensitive. js_includes (toLowerCase (cl_object claim)) sensitive)
              sensitiveObjects
      in predicateMatch \<or> objectMatch)"

definition isPubliclyAvailable :: "Claim \<Rightarrow> bool" where
  "isPubliclyAvailable claim =
     list_ex (\<lambda>source. js_includes (provenance_json claim) source)
       [''linkedin://'', ''public://'', ''web://'', ''search://'']"

text \<open>The tags \<open>verifyClaim\<close> pushes onto the LLM's \<open>policy_tags\<close>, in the order of the
  three \<open>if\<close>s.\<close>

definition pushed_tags :: "Claim \<Rightarrow> string list" where
  "pushed_tags claim =
     (if js_includes (provenance_json claim) ''linkedin://''
      then [''source:linkedin_scraping''] else []) @
     (if isPubliclyAvailable claim then [''consent:public_data''] else []) @
     (if containsSensitiveInformation claim then [''sensitive:pii''] else [])"

text \<open>A \<open>push\<close> onto a \<open>policy_tags\<close> that is not an array throws.\<close>

definition push_policy_tags :: "Claim \<Rightarrow> VerificationResult \<Rightarrow> exn + VerificationResult" where
  "push_policy_tags claim verificationResult =
     (if pushed_tags claim = [] then Inr verificationResult
      else case vr_policy_tags verificationResult of
             None \<Rightarrow> Inl (Exn ''Cannot read properties of undefined'')
           | Some tags \<Rightarrow>
               Inr (verificationResult\<lparr>vr_policy_tags := Some (tags @ pushed_tags claim)\<rparr>))"

definition verification_failed :: "string \<Rightarrow> VerificationResult" where
  "verification_failed msg =
     \<lparr>vr_approved = False, vr_policy_tags = Some [''error:verification_failed''],
      vr_reason = Some (''Verification failed: '' @ msg)\<rparr>"

definition verifyClaim :: "env \<Rightarrow> Claim \<Rightarrow> VerificationResult" where
  "verifyClaim e claim =
     (case verification_llm e claim of
        LlmThrows m \<Rightarrow> verification_failed m
      | LlmNotOk code \<Rightarrow> verification_failed (''AI verification failed: '' @ show_nat code)
      | LlmBadJson m \<Rightarrow> verification_failed m
      | LlmParsed verificationResult \<Rightarrow>
          (case push_policy_tags claim verificationResult of
             Inl (Exn m) \<Rightarrow> verification_failed m
           | Inr v \<Rightarrow> v))"

section \<open>Vector store (\<open>memory/vector.ts\<close>)\<close>

definition generateEmbedding :: "vec_env \<Rightarrow> string \<Rightarrow> exn + rat list" where
  "generateEmbedding v txt =
     (case embedding_ai v (take 5000 txt) of
        None \<Rightarrow> Inl (Exn ''Failed to generate embedding: Invalid response from Workers AI'')
      | Some embedding \<Rightarrow> Inr embedding)"

definition vectorize_upsert :: "vec_env \<Rightarrow> vector_row \<Rightarrow> world \<Rightarrow> (exn + unit) \<times> world" where
  "vectorize_upsert v row s =
     (let s1 = s\<lparr>writes := writes s @ [VectorWrite (v_id row)]\<rparr> in
      case vectorize_fail v (v_id row) of
        Some msg \<Rightarrow> (Inl (Exn msg), s1)
      | None \<Rightarrow>
          (Inr (), s1\<lparr>vindex := row # filter (\<lambda>r. v_id r \<noteq> v_id row) (vindex s1)\<rparr>))"

definition storeEvidence ::
  "vec_env \<Rightarrow> Evidence \<Rightarrow> rat list \<Rightarrow> world \<Rightarrow> (exn + unit) \<times> world" where
  "storeEvidence v evidence embedding =
     vectorize_upsert v \<lparr>v_id = ''evidence_'' @ ev_id evidence, v_values = embedding,
                         v_subject_id = ev_subject_id evidence\<rparr>"

definition storeClaim ::
  "vec_env \<Rightarrow> Claim \<Rightarrow> rat list \<Rightarrow> world \<Rightarrow> (exn + unit) \<times> world" where
  "storeClaim v claim embedding =
     vectorize_upsert v \<lparr>v_id = ''claim_'' @ cl_id claim, v_values = embedding,
                         v_subject_id = cl_subject_id claim\<rparr>"

section \<open>Run orchestrator (\<open>SubjectOrchestrator\<close>)\<close>

subsection \<open>\<open>extractClaimsFromEvidence\<close>\<close>

text \<open>The claim built from one candidate: a fresh id, then the three clock readings.\<close>

definition make_claim :: "env \<Rightarrow> Evidence \<Rightarrow> claim_candidate \<Rightarrow> world \<Rightarrow> Claim \<times> world" where
  "make_claim e ev claimData s =
     (let (u, s1) = draw_uuid e s
      in (\<lparr>cl_id = ''claim_'' @ u, cl_subject_id = ev_subject_id ev,
           cl_predicate = cc_predicate claimData, cl_object = cc_object claimData,
           cl_confidence = cc_confidence claimData, cl_first_seen_at = now e s1,
           cl_last_verified_at = now e s1,
           cl_provenance = \<lparr>pv_source = ev_source_url ev, pv_evidence_id = ev_id ev,
                             pv_extracted_at = now e s1\<rparr>,
           cl_policy_tags = ''extracted:ai''\<rparr>, s1))"

text \<open>The \<open>for ... of\<close> over the candidates, inside the \<open>try\<close> of the evidence: a \<open>null\<close>
  candidate throws, which ends the work on this evidence and keeps the claims pushed so
  far.\<close>

fun convert_claims ::
  "env \<Rightarrow> Evidence \<Rightarrow> claim_candidate option list \<Rightarrow> world \<Rightarrow> Claim list \<times> world" where
  "convert_claims e ev [] s = ([], s)"
| "convert_claims e ev (None # rest) s = ([], s)"
| "convert_claims e ev (Some claimData # rest) s =
     (let (claim, s1) = make_claim e ev claimData s;
          (claims, s2) = convert_claims e ev rest s1
      in (claim # claims, s2))"

definition candidates_of :: "extraction option \<Rightarrow> claim_candidate option list" where
  "candidates_of x =
     (case x of None \<Rightarrow> [] | Some ex \<Rightarrow> (case x_claims ex of None \<Rightarrow> [] | Some cs \<Rightarrow> cs))"

text \<open>One round of the loop over the evidence: the claims it pushes and the evidence
  object as the round leaves it (\<open>ev.extraction = extraction\<close> changes the object that the
  caller's list holds).\<close>

definition extract_one :: "env \<Rightarrow> Evidence \<Rightarrow> world \<Rightarrow> (Claim list \<times> Evidence) \<times> world" where
  "extract_one e ev s =
     (if ev_extraction ev \<noteq> None then
        (let (claims, s1) = convert_claims e ev (candidates_of (ev_extraction ev)) s
         in ((claims, ev), s1))
      else
        (case extraction_llm e ev of
           LlmThrows m \<Rightarrow> (([], ev), s)
         | LlmNotOk code \<Rightarrow> (([], ev), s)
         | LlmBadJson m \<Rightarrow> (([], ev), s)
         | LlmParsed extraction \<Rightarrow>
             let ev' = ev\<lparr>ev_extraction := extraction\<rparr> in
             (case createEvidence e ev' s of
                (Inl x, s1) \<Rightarrow> (([], ev'), s1)
              | (Inr stored, s1) \<Rightarrow>
                  let (claims, s2) = convert_claims e ev' (candidates_of extraction) s1
                  in ((claims, ev'), s2))))"

fun extractClaimsFromEvidence ::
  "env \<Rightarrow> Evidence list \<Rightarrow> world \<Rightarrow> (Claim list \<times> Evidence list) \<times> world" where
  "extractClaimsFromEvidence e [] s = (([], []), s)"
| "extractClaimsFromEvidence e (ev # evs) s =
     (let ((claims1, ev'), s1) = extract_one e ev s;
          ((claims2, evs'), s2) = extractClaimsFromEvidence e evs s1
      in ((claims1 @ claims2, ev' # evs'), s2))"

subsection \<open>\<open>verifyClaims\<close>\<close>

text \<open>The body of the \<open>try\<close> for one claim: \<open>None\<close> when the claim is not pushed, because it
  is rejected or because \<open>policy_tags.join\<close> throws on something that is not an array.\<close>

definition verify_one :: "env \<Rightarrow> Claim \<Rightarrow> Claim option" where
  "verify_one e claim =
     (let verification = verifyClaim e claim in
      if vr_approved verification then
        (case vr_policy_tags verification of
           None \<Rightarrow> None
         | Some tags \<Rightarrow> Some (claim\<lparr>cl_policy_tags := js_join tags '',''\<rparr>))
      else None)"

fun verifyClaims :: "env \<Rightarrow> Claim list \<Rightarrow> Claim list" where
  "verifyClaims e [] = []"
| "verifyClaims e (claim # claims) =
     (case verify_one e claim of
        Some verified \<Rightarrow> verified # verifyClaims e claims
      | None \<Rightarrow> verifyClaims e claims)"

text \<open>A claim with its \<open>policy_tags\<close> blanked: two claims with the same \<open>untag\<close> agree in
  every other field.\<close>

definition untag :: "Claim \<Rightarrow> Claim" where
  "untag c = c\<lparr>cl_policy_tags := []\<rparr>"

subsection \<open>\<open>upsertClaimsAndEvidence\<close>\<close>

text \<open>Four loops, each round in its own \<open>try\<close> whose \<open>catch\<close> only logs.\<close>

fun store_evidence_d1 :: "env \<Rightarrow> Evidence list \<Rightarrow> world \<Rightarrow> world" where
  "store_evidence_d1 e [] s = s"
| "store_evidence_d1 e (ev # evs) s = store_evidence_d1 e evs (snd (createEvidence e ev s))"

fun store_claims_d1 :: "env \<Rightarrow> Claim list \<Rightarrow> world \<Rightarrow> world" where
  "store_claims_d1 e [] s = s"
| "store_claims_d1 e (claim # claims) s = store_claims_d1 e claims (snd (createClaim e claim s))"

fun store_evidence_vector :: "vec_env \<Rightarrow> Evidence list \<Rightarrow> world \<Rightarrow> world" where
  "store_evidence_vector v [] s = s"
| "store_evidence_vector v (ev # evs) s =
     store_evidence_vector v evs
       (case generateEmbedding v (ev_content_text ev) of
          Inl x \<Rightarrow> s
        | Inr embedding \<Rightarrow> snd (storeEvidence v ev embedding s))"

fun store_claims_vector :: "vec_env \<Rightarrow> Claim list \<Rightarrow> world \<Rightarrow> world" where
  "store_claims_vector v [] s = s"
| "store_claims_vector v (claim # claims) s =
     store_claims_vector v claims
       (case generateEmbedding v (cl_predicate claim @ '' '' @ cl_object claim) of
          Inl x \<Rightarrow> s
        | Inr embedding \<Rightarrow> snd (storeClaim v claim embedding s))"

definition upsertClaimsAndEvidence ::
  "env \<Rightarrow> vec_env \<Rightarrow> Claim list \<Rightarrow> Evidence list \<Rightarrow> world \<Rightarrow> world" where
  "upsertClaimsAndEvidence e v claims evidence s =
     store_claims_vector v claims
       (store_evidence_vector v evidence
          (store_claims_d1 e claims
             (store_evidence_d1 e evidence s)))"

subsection \<open>\<open>executeStateMachine\<close>\<close>

text \<open>Every commented section of the method ends with the same two statements: write
  the next status (with the counters the section has computed) and read the run row
  again.\<close>

definition write_status_and_reload ::
  "env \<Rightarrow> string \<Rightarrow> run_status \<Rightarrow> nat option \<Rightarrow> nat option \<Rightarrow> world \<Rightarrow>
     (exn + SubjectRun option) \<times> world" where
  "write_status_and_reload e runId status evidenceCount claimsCount =
     bind_x (updateSubjectRunStatus e runId status evidenceCount claimsCount None)
       (\<lambda>u. getSubjectRun e runId)"

text \<open>The sections, one definition each.\<close>

definition intake_section :: "env \<Rightarrow> string \<Rightarrow> world \<Rightarrow> (exn + SubjectRun option) \<times> world" where
  "intake_section e runId = write_status_and_reload e runId St_discover None None"

definition discover_section :: "env \<Rightarrow> string \<Rightarrow> world \<Rightarrow> (exn + SubjectRun option) \<times> world" where
  "discover_section e runId = write_status_and_reload e runId St_fetch None None"

definition read_inputType :: "world \<Rightarrow> input_type" where
  "read_inputType s = (case stored_inputType s of Some t \<Rightarrow> t | None \<Rightarrow> search)"

definition read_maxApiCalls :: "world \<Rightarrow> int" where
  "read_maxApiCalls s =
     (case stored_maxApiCalls s of Some n \<Rightarrow> (if n = 0 then 5 else n) | None \<Rightarrow> 5)"

definition fetch_section ::
  "env \<Rightarrow> string \<Rightarrow> SubjectRun option \<Rightarrow> world \<Rightarrow> (exn + Evidence list) \<times> world" where
  "fetch_section e runId run s =
     (case run of
        None \<Rightarrow> throw_x ''Cannot read properties of null'' s
      | Some r \<Rightarrow>
          let (evidence, s1) =
                harvestEvidence e (run_subject_name r) [''web'', ''linkedin'']
                  (read_inputType s) (read_maxApiCalls s) s
          in bind_x (write_status_and_reload e runId St_normalize (Some (length evidence)) None)
               (\<lambda>run'. return_x evidence) s1)"

definition normalize_section :: "env \<Rightarrow> string \<Rightarrow> world \<Rightarrow> (exn + SubjectRun option) \<times> world" where
  "normalize_section e runId = write_status_and_reload e runId St_extract None None"

definition extract_section ::
  "env \<Rightarrow> string \<Rightarrow> Evidence list \<Rightarrow> world \<Rightarrow> (exn + Claim list \<times> Evidence list) \<times> world" where
  "extract_section e runId evidence s =
     (let ((claims, evidence'), s1) = extractClaimsFromEvidence e evidence s
      in bind_x (write_status_and_reload e runId St_verify None (Some (length claims)))
           (\<lambda>run'. return_x (claims, evidence')) s1)"

definition verify_section ::
  "env \<Rightarrow> string \<Rightarrow> Claim list \<Rightarrow> world \<Rightarrow> (exn + Claim list) \<times> world" where
  "verify_section e runId claims =
     bind_x (write_status_and_reload e runId St_upsert None None)
       (\<lambda>run'. return_x (verifyClaims e claims))"

definition upsert_section ::
  "env \<Rightarrow> vec_env \<Rightarrow> string \<Rightarrow> Claim list \<Rightarrow> Evidence list \<Rightarrow> world \<Rightarrow>
     (exn + SubjectRun option) \<times> world" where
  "upsert_section e v runId verifiedClaims evidence s =
     write_status_and_reload e runId St_synthesize None None
       (upsertClaimsAndEvidence e v verifiedClaims evidence s)"

definition synthesize_section :: "env \<Rightarrow> string \<Rightarrow> world \<Rightarrow> (exn + SubjectRun option) \<times> world" where
  "synthesize_section e runId = write_status_and_reload e runId St_publish None None"

definition publish_section :: "env \<Rightarrow> string \<Rightarrow> world \<Rightarrow> (exn + unit) \<times> world" where
  "publish_section e runId = updateSubjectRunStatus e runId St_completed None None None"

text \<open>The body of the \<open>try\<close>.\<close>

definition run_sections :: "env \<Rightarrow> vec_env \<Rightarrow> string \<Rightarrow> world \<Rightarrow> (exn + unit) \<times> world" where
  "run_sections e v runId =
     bind_x (getSubjectRun e runId) (\<lambda>run0.
       if run0 = None then return_x ()
       else
         bind_x (intake_section e runId) (\<lambda>run1.
         bind_x (discover_section e runId) (\<lambda>run2.
         bind_x (fetch_section e runId run2) (\<lambda>evidence.
         bind_x (normalize_section e runId) (\<lambda>run4.
         bind_x (extract_section e runId evidence) (\<lambda>extracted.
         bind_x (verify_section e runId (fst extracted)) (\<lambda>verifiedClaims.
         bind_x (upsert_section e v runId verifiedClaims (snd extracted)) (\<lambda>run7.
         bind_x (synthesize_section e runId) (\<lambda>run8.
         publish_section e runId)))))))))"

text \<open>The \<open>try\<close> with its \<open>catch\<close>: the message of whatever was thrown is written with status
  \<open>error\<close>. When that write throws as well, the exception leaves the method.\<close>

definition executeStateMachine ::
  "env \<Rightarrow> vec_env \<Rightarrow> string \<Rightarrow> world \<Rightarrow> (exn + unit) \<times> world" where
  "executeStateMachine e v runId s =
     (case run_sections e v runId s of
        (Inr u, s') \<Rightarrow> (Inr (), s')
      | (Inl (Exn msg), s') \<Rightarrow>
          updateSubjectRunStatus e runId St_error None None (Some msg) s')"

definition startRun ::
  "env \<Rightarrow> vec_env \<Rightarrow> string \<Rightarrow> input_type \<Rightarrow> int \<Rightarrow> world \<Rightarrow>
     (exn + SubjectRun) \<times> world" where
  "startRun e v subjectName inputType maxApiCalls s =
     (case createSubjectRun e subjectName ''web-scraping-user'' s of
        (Inl x, s1) \<Rightarrow> (Inl x, s1)
      | (Inr run, s1) \<Rightarrow>
          let s2 = s1\<lparr>stored_inputType := Some inputType,
                      stored_maxApiCalls := Some maxApiCalls\<rparr>
          in (Inr run, snd (executeStateMachine e v (run_id run) s2)))"

section \<open>Fallback synthesis (\<open>generateSynthesis\<close>, the \<open>catch\<close> branch)\<close>

text \<open>The fields of the parsed profile that the completeness score reads, typed as
  \<open>LinkedInProfileData\<close> declares them; \<open>None\<close> is an absent field.\<close>

record profile =
  p_about :: "string option"
  p_experience :: "json list option"
  p_education :: "json list option"
  p_followers :: "rat option"
  p_connections :: "rat option"


text \<open>\<open>x?.length > 0\<close> and \<open>x > 0\<close> are false of an absent field.\<close>

definition nonempty :: "'a list option \<Rightarrow> bool" where
  "nonempty xs = (case xs of None \<Rightarrow> False | Some l \<Rightarrow> length l > 0)"

definition positive :: "rat option \<Rightarrow> bool" where
  "positive x = (case x of None \<Rightarrow> False | Some v \<Rightarrow> v > 0)"

definition completenessScore :: "profile \<Rightarrow> rat" where
  "completenessScore linkedInData =
     min ((if nonempty (p_about linkedInData) then 0.2 else 0) +
          (if nonempty (p_experience linkedInData) then 0.3 else 0) +
          (if nonempty (p_education linkedInData) then 0.2 else 0) +
          (if positive (p_followers linkedInData) then 0.15 else 0) +
          (if positive (p_connections linkedInData) then 0.15 else 0))
         1.0"


text \<open>The score and the strength as the specification words them, for comparison with
  the two definitions above: the weighted presence of the five signals, clamped to
  \<open>[0, 1]\<close>, and thresholds that include their bound.\<close>

definition spec_completeness :: "profile \<Rightarrow> rat" where
  "spec_completeness p =
     max 0 (min 1
       (0.2 * of_bool (nonempty (p_about p)) +
        0.3 * of_bool (nonempty (p_experience p)) +
        0.2 * of_bool (nonempty (p_education p)) +
        0.15 * of_bool (positive (p_followers p)) +
        0.15 * of_bool (positive (p_connections p))))"



section \<open>Concrete environments and states for the closed instances\<close>

text \<open>An environment in which nothing fails: every trigger returns snapshot \<open>s1\<close>, every
  poll returns a one-profile array at once, the extraction LLM returns one candidate,
  the verification LLM approves with no tags, and the \<open>n\<close>-th identifier is \<open>n\<close> in
  decimal.\<close>

definition env0 :: env where
  "env0 =
     \<lparr>trigger_reply = (\<lambda>i. Body (JObj [(''snapshot_id'', JStr ''s1'')])),
      snapshot_replies = (\<lambda>sid n. Body (JArr [JObj [(''name'', JStr ''Alice'')]])),
      extraction_llm =
        (\<lambda>ev. LlmParsed (Some \<lparr>x_entities = [],
                x_claims = Some [Some \<lparr>cc_predicate = ''works_at'', cc_object = ''Acme'',
                                        cc_confidence = 0.95\<rparr>]\<rparr>)),
      verification_llm =
        (\<lambda>c. LlmParsed \<lparr>vr_approved = True, vr_policy_tags = Some [], vr_reason = None\<rparr>),
      d1_fail = (\<lambda>c. None),
      randomUUID = show_nat,
      toISOString = (\<lambda>n. ''2025-01-01T00:00:00.000Z''),
      sha256_hex = (\<lambda>c. ''h0''),
      json_stringify = (\<lambda>j. ''{}''),
      to_String = (\<lambda>v. ''error''),
      encodeURIComponent = (\<lambda>q. q),
      profile_record = (\<lambda>j url. j),
      search_record = (\<lambda>j. j)\<rparr>"

definition vec0 :: vec_env where
  "vec0 = \<lparr>embedding_ai = (\<lambda>t. Some []), vectorize_fail = (\<lambda>i. None)\<rparr>"

definition world0 :: world where
  "world0 =
     \<lparr>d1 = \<lparr>subject_runs = [], evidence_tbl = [], claims_tbl = []\<rparr>,
      vindex = [], ticks = 0, trigger_calls = 0, stored_inputType = None,
      stored_maxApiCalls = None, writes = []\<rparr>"

definition alice_url :: string where
  "alice_url = ''https://www.linkedin.com/in/alice''"

definition ev_alice :: Evidence where
  "ev_alice =
     \<lparr>ev_id = ''evid_h'', ev_subject_id = alice_url, ev_source_url = alice_url,
      ev_collected_at = ''2025-01-01T00:00:00.000Z'', ev_content_text = ''{}'',
      ev_content_type = CT_json, ev_hash = ''h0'', ev_extraction = None\<rparr>"

definition claim_alice :: Claim where
  "claim_alice =
     \<lparr>cl_id = ''claim_c'', cl_subject_id = alice_url, cl_predicate = ''works_at'',
      cl_object = ''Acme'', cl_confidence = 0.95,
      cl_first_seen_at = ''2025-01-01T00:00:00.000Z'',
      cl_last_verified_at = ''2025-01-01T00:00:00.000Z'',
      cl_provenance = \<lparr>pv_source = alice_url, pv_evidence_id = ''evid_h'',
                        pv_extracted_at = ''2025-01-01T00:00:00.000Z''\<rparr>,
      cl_policy_tags = ''extracted:ai''\<rparr>"


text \<open>The store after \<open>ev_alice\<close> has been written once (as row \<open>evid_0\<close>).\<close>

definition world_alice :: world where
  "world_alice =
     world0\<lparr>d1 := \<lparr>subject_runs = [], evidence_tbl = [ev_alice\<lparr>ev_id := ''evid_0''\<rparr>],
                    claims_tbl = []\<rparr>,
            ticks := 1, writes := [D1Write ''evid_0'']\<rparr>"

definition extraction_acme :: extraction where
  "extraction_acme =
     \<lparr>x_entities = [],
      x_claims = Some [Some \<lparr>cc_predicate = ''works_at'', cc_object = ''Acme'',
                              cc_confidence = 0.95\<rparr>]\<rparr>"

text \<open>An environment whose verification LLM answers HTTP 500 for claims about phones and
  approves every other claim with the single tag \<open>verified:high\<close>.\<close>

definition env_verify :: env where
  "env_verify =
     env0\<lparr>verification_llm :=
            (\<lambda>c. if cl_predicate c = ''phone_number'' then LlmNotOk 500
                 else LlmParsed \<lparr>vr_approved = True, vr_policy_tags = Some [''verified:high''],
                                  vr_reason = None\<rparr>)\<rparr>"

definition claim_phone :: Claim where
  "claim_phone = claim_alice\<lparr>cl_id := ''claim_p'', cl_predicate := ''phone_number'',
                             cl_object := ''555-0100''\<rparr>"

text \<open>A state with one run row for the direct URL, as \<open>startRun\<close> leaves it before the state
  machine starts (input kind \<open>linkedin\<close>, budget 1).\<close>

definition run_alice :: SubjectRun where
  "run_alice =
     \<lparr>run_id = ''run_0'', run_subject_name = alice_url, run_user_id = ''web-scraping-user'',
      run_state = St_intake, run_evidence_count = 0, run_claims_count = 0,
      run_created_at = ''2025-01-01T00:00:00.000Z'',
      run_updated_at = ''2025-01-01T00:00:00.000Z'', run_error_message = None\<rparr>"

definition world_run :: world where
  "world_run =
     \<lparr>d1 = \<lparr>subject_runs = [run_alice], evidence_tbl = [], claims_tbl = []\<rparr>,
      vindex = [], ticks = 1, trigger_calls = 0, stored_inputType = Some linkedin,
      stored_maxApiCalls = Some 1, writes = []\<rparr>"

text \<open>D1 refuses every insert of an evidence or a claim; everything else works.\<close>

definition env_insert_fails :: env where
  "env_insert_fails =
     env0\<lparr>d1_fail :=
            (\<lambda>c. case c of
                   InsertEvidence ev \<Rightarrow> Some ''D1_ERROR: insert failed''
                 | InsertClaim cl \<Rightarrow> Some ''D1_ERROR: insert failed''
                 | _ \<Rightarrow> None)\<rparr>"

text \<open>D1 refuses the write of status \<open>upsert\<close>; everything else works.\<close>

definition env_status_fails :: env where
  "env_status_fails =
     env0\<lparr>d1_fail :=
            (\<lambda>c. case c of
                   UpdateRun r st \<Rightarrow> (if st = St_upsert then Some ''D1_ERROR: update failed''
                                       else None)
                 | _ \<Rightarrow> None)\<rparr>"

text \<open>The embedding model and Vectorize both fail on every call.\<close>

definition vec_down :: vec_env where
  "vec_down = \<lparr>embedding_ai = (\<lambda>t. None), vectorize_fail = (\<lambda>i. Some ''VECTORIZE_ERROR'')\<rparr>"



text \<open>The evidence the harvester returns for the direct URL in \<open>world_run\<close>.\<close>

definition ev_harvested :: Evidence where
  "ev_harvested = ev_alice\<lparr>ev_id := ''evid_1''\<rparr>"

text \<open>The provider answers every trigger request with HTTP 503.\<close>

definition env_provider_down :: env where
  "env_provider_down = env0\<lparr>trigger_reply := (\<lambda>i. NotOk 503 ''Service Unavailable'')\<rparr>"


text \<open>The state that the fetch, extract, verify and upsert stages leave for the direct URL
  (the work of the stages, without the status writes between them).\<close>

definition stages_alice :: world where
  "stages_alice =
     (let (evidence, s1) =
            harvestEvidence env0 alice_url [''web'', ''linkedin''] linkedin 1 world_run;
          ((claims, evidence'), s2) = extractClaimsFromEvidence env0 evidence s1
      in upsertClaimsAndEvidence env0 vec0 (verifyClaims env0 claims) evidence' s2)"

section \<open>Views of the state used in the statements\<close>

text \<open>The row of a run, as \<open>getSubjectRun\<close> finds it.\<close>

definition run_row :: "string \<Rightarrow> world \<Rightarrow> SubjectRun option" where
  "run_row runId s = find (\<lambda>r. run_id r = runId) (subject_runs (d1 s))"

fun is_d1_write :: "store_write \<Rightarrow> bool" where
  "is_d1_write (D1Write i) = True"
| "is_d1_write (VectorWrite i) = False"

text \<open>The statuses the method writes, in program order.\<close>

definition status_order :: "run_status list" where
  "status_order =
     [St_discover, St_fetch, St_normalize, St_extract, St_verify, St_upsert,
      St_synthesize, St_publish, St_completed]"

text \<open>Two states that differ at most in the two counters (identifiers drawn, trigger
  requests made).\<close>

definition same_stores :: "world \<Rightarrow> world \<Rightarrow> bool" where
  "same_stores s s' \<longleftrightarrow>
     d1 s' = d1 s \<and> vindex s' = vindex s \<and> writes s' = writes s \<and>
     stored_inputType s' = stored_inputType s \<and> stored_maxApiCalls s' = stored_maxApiCalls s"

definition run_ids :: "world \<Rightarrow> string list" where
  "run_ids s = map run_id (subject_runs (d1 s))"

text \<open>The run row exists, is in the given status and carries the given error message.\<close>

definition at_status :: "string \<Rightarrow> run_status \<Rightarrow> string option \<Rightarrow> world \<Rightarrow> bool" where
  "at_status runId st msg s =
     (case run_row runId s of
        None \<Rightarrow> False
      | Some r \<Rightarrow> run_state r = st \<and> run_error_message r = msg)"

text \<open>Two states that differ at most in the Vectorize index and in the log of writes.\<close>

definition same_but_vector :: "world \<Rightarrow> world \<Rightarrow> bool" where
  "same_but_vector s s' \<longleftrightarrow>
     d1 s' = d1 s \<and> ticks s' = ticks s \<and> trigger_calls s' = trigger_calls s \<and>
     stored_inputType s' = stored_inputType s \<and> stored_maxApiCalls s' = stored_maxApiCalls s"

text \<open>The state a successful \<open>updateSubjectRunStatus\<close> leaves.\<close>

definition advanced ::
  "env \<Rightarrow> string \<Rightarrow> run_status \<Rightarrow> nat option \<Rightarrow> nat option \<Rightarrow> string option \<Rightarrow>
     world \<Rightarrow> world" where
  "advanced e runId status evidenceCount claimsCount errorMessage s =
     s\<lparr>d1 := (d1 s)\<lparr>subject_runs :=
          map (\<lambda>r. if run_id r = runId
                    then set_run status (now e s) evidenceCount claimsCount errorMessage r
                    else r)
              (subject_runs (d1 s))\<rparr>\<rparr>"

text \<open>Two outcomes (result and state) that agree up to the Vectorize index and the log.\<close>

definition same_outcome :: "'a \<times> world \<Rightarrow> 'a \<times> world \<Rightarrow> bool" where
  "same_outcome x y \<longleftrightarrow> fst x = fst y \<and> same_but_vector (snd x) (snd y)"

definition evidence_rows :: "world \<Rightarrow> Evidence list" where
  "evidence_rows s = evidence_tbl (d1 s)"


text \<open>Every claim row names, in its provenance, an evidence row of the same subject.\<close>

definition provenance_resolves :: "canonical \<Rightarrow> bool" where
  "provenance_resolves db =
     list_all (\<lambda>c. list_ex (\<lambda>ev. ev_id ev = pv_evidence_id (cl_provenance c) \<and>
                                  ev_subject_id ev = cl_subject_id c)
                      (evidence_tbl db))
       (claims_tbl db)"

section \<open>Frame lemmas: what each operation leaves alone\<close>

subsection \<open>Canonical store operations\<close>

lemma find_map_set_run:
  "find (\<lambda>r. run_id r = runId)
     (map (\<lambda>r. if run_id r = runId then set_run st t a b c r else r) rs) =
   map_option (set_run st t a b c) (find (\<lambda>r. run_id r = runId) rs)"
  by (induction rs) (auto simp: set_run_def)

lemma update_ok:
  assumes "d1_fail e (UpdateRun runId st) = None"
  shows "fst (updateSubjectRunStatus e runId st a b c s) = Inr ()"
    and "run_row runId (snd (updateSubjectRunStatus e runId st a b c s)) =
           map_option (set_run st (now e s) a b c) (run_row runId s)"
  using assms by (simp_all add: updateSubjectRunStatus_def run_row_def find_map_set_run)

lemma update_fail:
  assumes "d1_fail e (UpdateRun runId st) = Some msg"
  shows "updateSubjectRunStatus e runId st a b c s = (Inl (Exn msg), s)"
  using assms by (simp add: updateSubjectRunStatus_def)

lemma update_frame:
  "vindex (snd (updateSubjectRunStatus e runId st a b c s)) = vindex s"
  "writes (snd (updateSubjectRunStatus e runId st a b c s)) = writes s"
  "ticks (snd (updateSubjectRunStatus e runId st a b c s)) = ticks s"
  "trigger_calls (snd (updateSubjectRunStatus e runId st a b c s)) = trigger_calls s"
  "stored_inputType (snd (updateSubjectRunStatus e runId st a b c s)) = stored_inputType s"
  "stored_maxApiCalls (snd (updateSubjectRunStatus e runId st a b c s)) = stored_maxApiCalls s"
  "evidence_tbl (d1 (snd (updateSubjectRunStatus e runId st a b c s))) = evidence_tbl (d1 s)"
  "claims_tbl (d1 (snd (updateSubjectRunStatus e runId st a b c s))) = claims_tbl (d1 s)"
  by (simp_all add: updateSubjectRunStatus_def split: option.splits)

lemma get_ok:
  assumes "d1_fail e (SelectRun runId) = None"
  shows "getSubjectRun e runId s = (Inr (run_row runId s), s)"
  using assms by (simp add: getSubjectRun_def run_row_def)

lemma get_state: "snd (getSubjectRun e runId s) = s"
  by (simp add: getSubjectRun_def split: option.splits)

subsection \<open>Scraper and harvester: only the two counters move\<close>

lemma same_stores_refl [simp]: "same_stores s s"
  by (simp add: same_stores_def)

lemma same_stores_trans: "same_stores s s1 \<Longrightarrow> same_stores s1 s2 \<Longrightarrow> same_stores s s2"
  by (simp add: same_stores_def)

lemma same_stores_count [simp]: "same_stores s (count_trigger s)"
  by (simp add: same_stores_def count_trigger_def)

lemma scrapeProfile_state: "snd (scrapeProfile e url s) = count_trigger s"
  by (simp add: scrapeProfile_def Let_def split: sum.splits exn.splits prod.splits)

lemma scrapeWebContent_state: "snd (scrapeWebContent e url s) = count_trigger s"
  by (simp add: scrapeWebContent_def triggerScraping_def Let_def
      split: sum.splits exn.splits prod.splits)

lemma searchProfiles_state:
  "snd (searchProfiles e q s) =
     (if length (js_split (js_trim q) (CHR '' '')) < 2 then s else count_trigger s)"
  by (simp add: searchProfiles_def Let_def split: sum.splits exn.splits prod.splits)

lemma harvester_createEvidence_state:
  "snd (harvester_createEvidence e sub src c t s) = s\<lparr>ticks := Suc (ticks s)\<rparr>"
  by (simp add: harvester_createEvidence_def draw_uuid_def Let_def)

lemma same_stores_ticks [simp]: "same_stores s (s'\<lparr>ticks := n\<rparr>) = same_stores s s'"
  by (simp add: same_stores_def)

lemma scrapeProfileD: "scrapeProfile e url s = (r, s1) \<Longrightarrow> s1 = count_trigger s"
  using scrapeProfile_state [of e url s] by simp

lemma scrapeWebContentD: "scrapeWebContent e url s = (r, s1) \<Longrightarrow> s1 = count_trigger s"
  using scrapeWebContent_state [of e url s] by simp

lemma searchProfilesD:
  "searchProfiles e q s = (r, s1) \<Longrightarrow> s1 = s \<or> s1 = count_trigger s"
  using searchProfiles_state [of e q s] by (auto split: if_splits)

lemma same_stores_scrapeLinkedInProfileTool [simp]:
  "same_stores s (snd (scrapeLinkedInProfileTool e sub url s))"
  by (auto simp: scrapeLinkedInProfileTool_def Let_def harvester_createEvidence_def
        draw_uuid_def split: prod.splits dest!: scrapeProfileD)

lemma same_stores_searchWebTool [simp]:
  "same_stores s (snd (searchWebTool e q sub s))"
  by (auto simp: searchWebTool_def fetchWebContent_def Let_def harvester_createEvidence_def
        draw_uuid_def split: prod.splits sum.splits exn.splits dest!: scrapeWebContentD)

lemma same_stores_searchLinkedInProfilesTool [simp]:
  "same_stores s (snd (searchLinkedInProfilesTool e sub q s))"
  by (auto simp: searchLinkedInProfilesTool_def Let_def harvester_createEvidence_def
        draw_uuid_def split: prod.splits dest!: searchProfilesD)

lemma same_stores_toolD:
  "scrapeLinkedInProfileTool e sub url s = (r, s1) \<Longrightarrow> same_stores s s1"
  "searchWebTool e q sub s = (r, s1) \<Longrightarrow> same_stores s s1"
  "searchLinkedInProfilesTool e sub q s = (r, s1) \<Longrightarrow> same_stores s s1"
  using same_stores_scrapeLinkedInProfileTool [of s e sub url]
        same_stores_searchWebTool [of s e q sub]
        same_stores_searchLinkedInProfilesTool [of s e sub q]
  by simp_all

lemma same_stores_scrape_found_profiles:
  "same_stores s (snd (scrape_found_profiles e sub m ps acc s))"
proof (induction ps arbitrary: acc s)
  case Nil
  then show ?case by simp
next
  case (Cons p ps)
  obtain r s1 where t: "scrapeLinkedInProfileTool e sub (profile_link e p) s = (r, s1)"
    by (cases "scrapeLinkedInProfileTool e sub (profile_link e p) s")
  have s1: "same_stores s s1" using same_stores_toolD(1) [OF t] .
  have ih: "same_stores s (snd (scrape_found_profiles e sub m ps a s1))" for a
    using same_stores_trans [OF s1 Cons.IH] .
  show ?case using Cons.IH ih t by (simp add: Let_def)
qed

lemma same_stores_harvest_direct:
  "same_stores s (snd (harvest_direct e sub acc s))"
proof -
  obtain r s1 where t: "scrapeLinkedInProfileTool e sub sub s = (r, s1)"
    by (cases "scrapeLinkedInProfileTool e sub sub s")
  show ?thesis using same_stores_toolD(1) [OF t] t by (simp add: harvest_direct_def)
qed

lemma same_stores_harvest_web:
  "same_stores s (snd (harvest_web e sub srcs m acc s))"
proof -
  obtain r s1 where t: "searchWebTool e sub sub s = (r, s1)"
    by (cases "searchWebTool e sub sub s")
  show ?thesis using same_stores_toolD(2) [OF t] t by (simp add: harvest_web_def)
qed

lemma same_stores_harvest_linkedin:
  "same_stores s (snd (harvest_linkedin e sub srcs m acc s))"
proof -
  obtain r s1 where t: "searchLinkedInProfilesTool e sub sub s = (r, s1)"
    by (cases "searchLinkedInProfilesTool e sub sub s")
  have s1: "same_stores s s1" using same_stores_toolD(3) [OF t] .
  have l: "same_stores s (snd (scrape_found_profiles e sub m ps a s1))" for ps a
    using same_stores_trans [OF s1 same_stores_scrape_found_profiles] .
  show ?thesis using s1 l t
    by (simp add: harvest_linkedin_def Let_def split: option.splits json.splits list.splits)
qed

lemma same_stores_harvest_counted:
  "same_stores s (snd (harvest_counted e sub srcs it m s))"
proof -
  obtain a s1 where t: "harvest_web e sub srcs m ([], 0) s = (a, s1)"
    by (cases "harvest_web e sub srcs m ([], 0) s")
  have s1: "same_stores s s1" using same_stores_harvest_web [of s e sub srcs m "([], 0)"] t by simp
  show ?thesis
    using same_stores_harvest_direct same_stores_trans [OF s1 same_stores_harvest_linkedin] t
    by (simp add: harvest_counted_def)
qed

lemma same_stores_harvestEvidence:
  "same_stores s (snd (harvestEvidence e sub srcs it m s))"
proof -
  obtain acc s1 where t: "harvest_counted e sub srcs it m s = (acc, s1)"
    by (cases "harvest_counted e sub srcs it m s")
  show ?thesis
    using same_stores_harvest_counted [of s e sub srcs it m] t
    by (simp add: harvestEvidence_def)
qed

subsection \<open>Orchestrator work: the run rows are not touched\<close>

lemma createEvidence_frames:
  "subject_runs (d1 (snd (createEvidence e ev s))) = subject_runs (d1 s)"
  "claims_tbl (d1 (snd (createEvidence e ev s))) = claims_tbl (d1 s)"
  by (simp_all add: createEvidence_def draw_uuid_def Let_def split: option.splits)

lemma createClaim_frames:
  "subject_runs (d1 (snd (createClaim e c s))) = subject_runs (d1 s)"
  "evidence_tbl (d1 (snd (createClaim e c s))) = evidence_tbl (d1 s)"
  by (simp_all add: createClaim_def draw_uuid_def Let_def split: option.splits)

lemma make_claim_d1: "d1 (snd (make_claim e ev cd s)) = d1 s"
  by (simp add: make_claim_def draw_uuid_def Let_def)

lemma convert_claims_d1: "d1 (snd (convert_claims e ev cds s)) = d1 s"
proof (induction cds arbitrary: s)
  case Nil
  then show ?case by simp
next
  case (Cons cd cds)
  then show ?case
    by (cases cd) (simp_all add: Let_def case_prod_beta make_claim_d1)
qed

lemma extract_one_runs:
  "subject_runs (d1 (snd (extract_one e ev s))) = subject_runs (d1 s)"
  by (simp add: extract_one_def Let_def case_prod_beta convert_claims_d1 createEvidence_frames
      split: llm_reply.splits sum.splits)

lemma extractClaims_runs:
  "subject_runs (d1 (snd (extractClaimsFromEvidence e evs s))) = subject_runs (d1 s)"
  by (induction evs arbitrary: s) (simp_all add: Let_def case_prod_beta extract_one_runs)

lemma store_evidence_d1_runs:
  "subject_runs (d1 (store_evidence_d1 e evs s)) = subject_runs (d1 s)"
  by (induction evs arbitrary: s) (simp_all add: createEvidence_frames)

lemma store_claims_d1_runs:
  "subject_runs (d1 (store_claims_d1 e cs s)) = subject_runs (d1 s)"
  by (induction cs arbitrary: s) (simp_all add: createClaim_frames)

lemma same_but_vector_refl [simp]: "same_but_vector s s"
  by (simp add: same_but_vector_def)

lemma same_but_vector_sym: "same_but_vector s s' \<Longrightarrow> same_but_vector s' s"
  by (simp add: same_but_vector_def)

lemma same_but_vector_trans:
  "same_but_vector s s1 \<Longrightarrow> same_but_vector s1 s2 \<Longrightarrow> same_but_vector s s2"
  by (simp add: same_but_vector_def)

lemma vectorize_upsert_same: "same_but_vector s (snd (vectorize_upsert v row s))"
  by (simp add: vectorize_upsert_def same_but_vector_def Let_def split: option.splits)

lemma store_evidence_vector_same: "same_but_vector s (store_evidence_vector v evs s)"
proof (induction evs arbitrary: s)
  case Nil
  then show ?case by simp
next
  case (Cons ev evs)
  define X where "X = (case generateEmbedding v (ev_content_text ev) of
             Inl x \<Rightarrow> s | Inr embedding \<Rightarrow> snd (storeEvidence v ev embedding s))"
  have a: "same_but_vector s X"
    unfolding X_def by (simp add: storeEvidence_def vectorize_upsert_same split: sum.splits)
  have b: "same_but_vector X (store_evidence_vector v evs X)" by (rule Cons.IH)
  have "store_evidence_vector v (ev # evs) s = store_evidence_vector v evs X"
    by (simp add: X_def)
  then show ?case using same_but_vector_trans [OF a b] by simp
qed

lemma store_claims_vector_same: "same_but_vector s (store_claims_vector v cs s)"
proof (induction cs arbitrary: s)
  case Nil
  then show ?case by simp
next
  case (Cons c cs)
  define X where "X = (case generateEmbedding v (cl_predicate c @ '' '' @ cl_object c) of
             Inl x \<Rightarrow> s | Inr embedding \<Rightarrow> snd (storeClaim v c embedding s))"
  have a: "same_but_vector s X"
    unfolding X_def by (simp add: storeClaim_def vectorize_upsert_same split: sum.splits)
  have b: "same_but_vector X (store_claims_vector v cs X)" by (rule Cons.IH)
  have "store_claims_vector v (c # cs) s = store_claims_vector v cs X"
    by (simp add: X_def)
  then show ?case using same_but_vector_trans [OF a b] by simp
qed

lemma upsert_vector_part:
  "same_but_vector (store_claims_d1 e cs (store_evidence_d1 e evs s))
     (upsertClaimsAndEvidence e v cs evs s)"
  unfolding upsertClaimsAndEvidence_def
  using same_but_vector_trans store_evidence_vector_same store_claims_vector_same by blast

lemma upsert_runs:
  "subject_runs (d1 (upsertClaimsAndEvidence e v cs evs s)) = subject_runs (d1 s)"
  using upsert_vector_part [of e cs evs s v]
  by (simp add: same_but_vector_def store_claims_d1_runs store_evidence_d1_runs)

lemma harvest_runs:
  "subject_runs (d1 (snd (harvestEvidence e sub srcs it m s))) = subject_runs (d1 s)"
  using same_stores_harvestEvidence [of s e sub srcs it m] by (simp add: same_stores_def)

lemma harvest_evidence_tbl:
  "evidence_tbl (d1 (snd (harvestEvidence e sub srcs it m s))) = evidence_tbl (d1 s)"
  using same_stores_harvestEvidence [of s e sub srcs it m] by (simp add: same_stores_def)

subsection \<open>Writing a status\<close>

lemma run_row_cong:
  "subject_runs (d1 s') = subject_runs (d1 s) \<Longrightarrow> run_row runId s' = run_row runId s"
  by (simp add: run_row_def)

lemma run_ids_cong:
  "subject_runs (d1 s') = subject_runs (d1 s) \<Longrightarrow> run_ids s' = run_ids s"
  by (simp add: run_ids_def)

lemma run_row_ids: "run_row runId s \<noteq> None \<longleftrightarrow> runId \<in> set (run_ids s)"
  by (auto simp: run_row_def run_ids_def find_None_iff)

lemma update_run_ids:
  "run_ids (snd (updateSubjectRunStatus e runId st a b c s)) = run_ids s"
  by (simp add: updateSubjectRunStatus_def run_ids_def set_run_def comp_def
      split: option.splits)

lemma wsr_ok:
  assumes "d1_fail e (SelectRun runId) = None" and "d1_fail e (UpdateRun runId st) = None"
  shows "write_status_and_reload e runId st a b s =
           (Inr (run_row runId (snd (updateSubjectRunStatus e runId st a b None s))),
            snd (updateSubjectRunStatus e runId st a b None s))"
  using assms update_ok(1) [OF assms(2), of a b None s]
  by (cases "updateSubjectRunStatus e runId st a b None s")
     (simp add: write_status_and_reload_def bind_x_def get_ok)

lemma wsr_InrD:
  assumes "write_status_and_reload e runId st a b s = (Inr r, s')"
  shows "d1_fail e (UpdateRun runId st) = None"
    and "s' = snd (updateSubjectRunStatus e runId st a b None s)"
  using assms
  by (auto simp: write_status_and_reload_def bind_x_def updateSubjectRunStatus_def
        getSubjectRun_def split: option.splits)

lemma wsr_run_ids:
  "run_ids (snd (write_status_and_reload e runId st a b s)) = run_ids s"
proof (cases "updateSubjectRunStatus e runId st a b None s")
  case (Pair r s1)
  then have "run_ids s1 = run_ids s" using update_run_ids [of e runId st a b None s] by simp
  then show ?thesis using Pair get_state [of e runId s1]
    by (cases r) (simp_all add: write_status_and_reload_def bind_x_def)
qed

lemma bind_x_run_ids:
  assumes "\<And>s. run_ids (snd (m s)) = run_ids s"
      and "\<And>a s. run_ids (snd (f a s)) = run_ids s"
  shows "run_ids (snd (bind_x m f s)) = run_ids s"
proof (cases "m s")
  case (Pair r s1)
  then have "run_ids s1 = run_ids s" using assms(1) [of s] by simp
  then show ?thesis using Pair assms(2) by (cases r) (simp_all add: bind_x_def)
qed

lemma bind_x_InrE:
  assumes "bind_x m f s = (Inr b, s')"
  obtains a s1 where "m s = (Inr a, s1)" and "f a s1 = (Inr b, s')"
  using assms by (auto simp: bind_x_def split: prod.splits sum.splits)

lemma section_run_ids:
  "run_ids (snd (intake_section e runId s)) = run_ids s"
  "run_ids (snd (discover_section e runId s)) = run_ids s"
  "run_ids (snd (normalize_section e runId s)) = run_ids s"
  "run_ids (snd (synthesize_section e runId s)) = run_ids s"
  "run_ids (snd (publish_section e runId s)) = run_ids s"
  by (simp_all add: intake_section_def discover_section_def normalize_section_def
        synthesize_section_def publish_section_def wsr_run_ids update_run_ids)

lemma return_x_run_ids: "run_ids (snd (return_x a s)) = run_ids s"
  by (simp add: return_x_def)

lemma fetch_section_run_ids: "run_ids (snd (fetch_section e runId run s)) = run_ids s"
proof (cases run)
  case None
  then show ?thesis by (simp add: fetch_section_def throw_x_def)
next
  case (Some r)
  have h: "run_ids (snd (harvestEvidence e sub srcs it m s)) = run_ids s" for sub srcs it m
    by (rule run_ids_cong) (rule harvest_runs)
  show ?thesis
    using Some
    by (simp add: fetch_section_def case_prod_beta Let_def bind_x_run_ids wsr_run_ids
          return_x_run_ids h)
qed

lemma extract_section_run_ids: "run_ids (snd (extract_section e runId evs s)) = run_ids s"
proof -
  have h: "run_ids (snd (extractClaimsFromEvidence e evs s)) = run_ids s"
    by (rule run_ids_cong) (rule extractClaims_runs)
  show ?thesis
    by (simp add: extract_section_def case_prod_beta Let_def bind_x_run_ids wsr_run_ids
          return_x_run_ids h)
qed

lemma verify_section_run_ids: "run_ids (snd (verify_section e runId cs s)) = run_ids s"
  by (simp add: verify_section_def bind_x_run_ids wsr_run_ids return_x_run_ids)

lemma upsert_section_run_ids: "run_ids (snd (upsert_section e v runId cs evs s)) = run_ids s"
proof -
  have h: "run_ids (upsertClaimsAndEvidence e v cs evs s) = run_ids s"
    by (rule run_ids_cong) (rule upsert_runs)
  show ?thesis by (simp add: upsert_section_def wsr_run_ids h)
qed

lemma get_run_ids: "run_ids (snd (getSubjectRun e runId s)) = run_ids s"
  by (simp add: get_state)

lemma run_sections_run_ids: "run_ids (snd (run_sections e v runId s)) = run_ids s"
  unfolding run_sections_def
  by (intro bind_x_run_ids get_run_ids)
     (simp_all add: return_x_run_ids bind_x_run_ids section_run_ids fetch_section_run_ids
        extract_section_run_ids verify_section_run_ids upsert_section_run_ids)

subsection \<open>The state machine: success and failure of the status writes\<close>

lemma section_InrD:
  "intake_section e runId s = (Inr r, s') \<Longrightarrow> d1_fail e (UpdateRun runId St_discover) = None"
  "discover_section e runId s = (Inr r, s') \<Longrightarrow> d1_fail e (UpdateRun runId St_fetch) = None"
  "normalize_section e runId s = (Inr r, s') \<Longrightarrow> d1_fail e (UpdateRun runId St_extract) = None"
  "synthesize_section e runId s = (Inr r, s') \<Longrightarrow> d1_fail e (UpdateRun runId St_publish) = None"
  "upsert_section e v runId cs evs s = (Inr r, s') \<Longrightarrow>
     d1_fail e (UpdateRun runId St_synthesize) = None"
  by (auto simp: intake_section_def discover_section_def normalize_section_def
        synthesize_section_def upsert_section_def dest: wsr_InrD(1))

lemma publish_InrD:
  "publish_section e runId s = (Inr u, s') \<Longrightarrow> d1_fail e (UpdateRun runId St_completed) = None"
  by (auto simp: publish_section_def updateSubjectRunStatus_def split: option.splits)

lemma fetch_InrD:
  "fetch_section e runId run s = (Inr evs, s') \<Longrightarrow> d1_fail e (UpdateRun runId St_normalize) = None"
  by (cases run)
     (auto simp: fetch_section_def throw_x_def case_prod_beta Let_def
        elim!: bind_x_InrE dest: wsr_InrD(1))

lemma extract_InrD:
  "extract_section e runId evs s = (Inr x, s') \<Longrightarrow> d1_fail e (UpdateRun runId St_verify) = None"
  by (auto simp: extract_section_def case_prod_beta Let_def elim!: bind_x_InrE dest: wsr_InrD(1))

lemma verify_InrD:
  "verify_section e runId cs s = (Inr x, s') \<Longrightarrow> d1_fail e (UpdateRun runId St_upsert) = None"
  by (auto simp: verify_section_def elim!: bind_x_InrE dest: wsr_InrD(1))

lemma getSubjectRun_InrD:
  "getSubjectRun e runId s = (Inr r, s') \<Longrightarrow> r = run_row runId s \<and> s' = s"
  by (auto simp: getSubjectRun_def run_row_def split: option.splits)

text \<open>When the body of the \<open>try\<close> ends without an exception for a run that exists, every
  status of the sequence has been written.\<close>

lemma run_sections_Inr_all_written:
  assumes "run_sections e v runId s = (Inr u, s')" and "run_row runId s \<noteq> None"
  shows "\<forall>st \<in> set status_order. d1_fail e (UpdateRun runId st) = None"
proof -
  from assms(1) obtain run0 s0 where
      g: "getSubjectRun e runId s = (Inr run0, s0)" and
      rest: "(if run0 = None then return_x ()
              else
                bind_x (intake_section e runId) (\<lambda>run1.
                bind_x (discover_section e runId) (\<lambda>run2.
                bind_x (fetch_section e runId run2) (\<lambda>evidence.
                bind_x (normalize_section e runId) (\<lambda>run4.
                bind_x (extract_section e runId evidence) (\<lambda>extracted.
                bind_x (verify_section e runId (fst extracted)) (\<lambda>verifiedClaims.
                bind_x (upsert_section e v runId verifiedClaims (snd extracted)) (\<lambda>run7.
                bind_x (synthesize_section e runId) (\<lambda>run8.
                publish_section e runId))))))))) s0 = (Inr u, s')"
    unfolding run_sections_def by (erule bind_x_InrE)
  from g assms(2) have "run0 \<noteq> None" using getSubjectRun_InrD by blast
  with rest show ?thesis
    by (auto simp: status_order_def elim!: bind_x_InrE
        dest: section_InrD publish_InrD fetch_InrD extract_InrD verify_InrD)
qed

subsection \<open>The state machine: the run as a whole\<close>

lemma run_row_frames:
  "run_row runId (snd (harvestEvidence e sub srcs it m s)) = run_row runId s"
  "run_row runId (snd (extractClaimsFromEvidence e evs s)) = run_row runId s"
  "run_row runId (upsertClaimsAndEvidence e v cs evs s) = run_row runId s"
  by (rule run_row_cong, rule harvest_runs, rule run_row_cong, rule extractClaims_runs,
      rule run_row_cong, rule upsert_runs)

lemma update_ok_eq:
  assumes "d1_fail e (UpdateRun runId st) = None"
  shows "updateSubjectRunStatus e runId st a b c s = (Inr (), advanced e runId st a b c s)"
  using assms by (simp add: updateSubjectRunStatus_def advanced_def)

lemma advanced_row:
  "run_row runId (advanced e runId st a b c s) =
     map_option (set_run st (now e s) a b c) (run_row runId s)"
  by (simp add: advanced_def run_row_def find_map_set_run)

lemma advanced_frames:
  "evidence_tbl (d1 (advanced e runId st a b c s)) = evidence_tbl (d1 s)"
  "claims_tbl (d1 (advanced e runId st a b c s)) = claims_tbl (d1 s)"
  "stored_inputType (advanced e runId st a b c s) = stored_inputType s"
  "stored_maxApiCalls (advanced e runId st a b c s) = stored_maxApiCalls s"
  "ticks (advanced e runId st a b c s) = ticks s"
  "trigger_calls (advanced e runId st a b c s) = trigger_calls s"
  "vindex (advanced e runId st a b c s) = vindex s"
  "writes (advanced e runId st a b c s) = writes s"
  by (simp_all add: advanced_def)

lemma executeStateMachine_catch:
  assumes "fst (run_sections e v runId s) = Inl (Exn msg)"
      and "d1_fail e (UpdateRun runId St_error) = None"
      and "run_row runId s \<noteq> None"
  shows "fst (executeStateMachine e v runId s) = Inr () \<and>
         at_status runId St_error (Some msg) (snd (executeStateMachine e v runId s))"
proof -
  obtain s1 where r: "run_sections e v runId s = (Inl (Exn msg), s1)"
    using assms(1) by (cases "run_sections e v runId s") simp
  have "run_ids s1 = run_ids s" using run_sections_run_ids [of e v runId s] r by simp
  moreover have "runId \<in> set (run_ids s)" using assms(3) run_row_ids by blast
  ultimately have "runId \<in> set (run_ids s1)" by simp
  then have "run_row runId s1 \<noteq> None" using run_row_ids by blast
  then obtain r1 where r1: "run_row runId s1 = Some r1" by blast
  have e: "executeStateMachine e v runId s =
             updateSubjectRunStatus e runId St_error None None (Some msg) s1"
    using r by (simp add: executeStateMachine_def)
  show ?thesis
    unfolding e
    using update_ok [OF assms(2), of None None "Some msg" s1] r1
    by (simp add: at_status_def set_run_def)
qed

lemma executeStateMachine_completes:
  assumes sel: "d1_fail e (SelectRun runId) = None"
      and upd: "\<forall>st \<in> set status_order. d1_fail e (UpdateRun runId st) = None"
      and row: "run_row runId s = Some r0"
  shows "fst (executeStateMachine e v runId s) = Inr () \<and>
         at_status runId St_completed (run_error_message r0)
           (snd (executeStateMachine e v runId s))"
proof -
  have u: "d1_fail e (UpdateRun runId St_discover) = None"
          "d1_fail e (UpdateRun runId St_fetch) = None"
          "d1_fail e (UpdateRun runId St_normalize) = None"
          "d1_fail e (UpdateRun runId St_extract) = None"
          "d1_fail e (UpdateRun runId St_verify) = None"
          "d1_fail e (UpdateRun runId St_upsert) = None"
          "d1_fail e (UpdateRun runId St_synthesize) = None"
          "d1_fail e (UpdateRun runId St_publish) = None"
          "d1_fail e (UpdateRun runId St_completed) = None"
    using upd by (simp_all add: status_order_def)
  have "\<exists>s'. run_sections e v runId s = (Inr (), s') \<and>
          at_status runId St_completed (run_error_message r0) s'"
    unfolding run_sections_def intake_section_def discover_section_def fetch_section_def
      normalize_section_def extract_section_def verify_section_def upsert_section_def
      synthesize_section_def publish_section_def write_status_and_reload_def
    using row u
    by (simp add: bind_x_def return_x_def get_ok [OF sel] update_ok_eq advanced_row
          run_row_frames case_prod_beta Let_def at_status_def set_run_def)
  then show ?thesis by (auto simp: executeStateMachine_def)
qed

subsection \<open>The vector store cannot influence the canonical store\<close>

lemma same_outcome_refl [simp]: "same_outcome x x"
  by (simp add: same_outcome_def)

lemma bind_x_same_prefix:
  assumes "\<And>a s1. same_outcome (f a s1) (g a s1)"
  shows "same_outcome (bind_x m f s) (bind_x m g s)"
  using assms by (cases "m s") (auto simp: bind_x_def split: sum.splits)

lemma bind_x_same:
  assumes "same_outcome (m s) (m' s')"
      and "\<And>a s1 s1'. same_but_vector s1 s1' \<Longrightarrow> same_outcome (f a s1) (g a s1')"
  shows "same_outcome (bind_x m f s) (bind_x m' g s')"
proof (cases "m s")
  case (Pair r s1)
  obtain r' s1' where p': "m' s' = (r', s1')" by (cases "m' s'")
  from assms(1) Pair p' have rr: "r' = r" and ss: "same_but_vector s1 s1'"
    by (simp_all add: same_outcome_def)
  show ?thesis
  proof (cases r)
    case (Inl x)
    then show ?thesis using Pair p' rr ss by (simp add: bind_x_def same_outcome_def)
  next
    case (Inr a)
    then show ?thesis using Pair p' rr assms(2) [OF ss, of a] by (simp add: bind_x_def)
  qed
qed

lemma update_same:
  assumes "same_but_vector s s'"
  shows "same_outcome (updateSubjectRunStatus e runId st a b c s)
           (updateSubjectRunStatus e runId st a b c s')"
  using assms
  by (simp add: updateSubjectRunStatus_def same_outcome_def same_but_vector_def now_def
      split: option.splits)

lemma get_same:
  assumes "same_but_vector s s'"
  shows "same_outcome (getSubjectRun e runId s) (getSubjectRun e runId s')"
  using assms
  by (simp add: getSubjectRun_def same_outcome_def same_but_vector_def split: option.splits)

lemma wsr_same:
  assumes "same_but_vector s s'"
  shows "same_outcome (write_status_and_reload e runId st a b s)
           (write_status_and_reload e runId st a b s')"
  unfolding write_status_and_reload_def
  by (rule bind_x_same) (rule update_same [OF assms], rule get_same)

lemma upsert_same:
  "same_but_vector (upsertClaimsAndEvidence e v cs evs s) (upsertClaimsAndEvidence e v' cs evs s)"
  using upsert_vector_part [of e cs evs s v] upsert_vector_part [of e cs evs s v']
        same_but_vector_sym same_but_vector_trans
  by blast

lemma run_sections_same:
  "same_outcome (run_sections e v runId s) (run_sections e v' runId s)"
  unfolding run_sections_def
proof (intro bind_x_same_prefix)
  fix run0 :: "SubjectRun option" and s0 evidence extracted verifiedClaims
    and s1 run1 s2 run2 s3 s4 run4 s5 s6 s7
  show "same_outcome
          ((if run0 = None then return_x ()
            else bind_x (intake_section e runId) (\<lambda>run1.
                 bind_x (discover_section e runId) (\<lambda>run2.
                 bind_x (fetch_section e runId run2) (\<lambda>evidence.
                 bind_x (normalize_section e runId) (\<lambda>run4.
                 bind_x (extract_section e runId evidence) (\<lambda>extracted.
                 bind_x (verify_section e runId (fst extracted)) (\<lambda>verifiedClaims.
                 bind_x (upsert_section e v runId verifiedClaims (snd extracted)) (\<lambda>run7.
                 bind_x (synthesize_section e runId) (\<lambda>run8.
                 publish_section e runId))))))))) s0)
          ((if run0 = None then return_x ()
            else bind_x (intake_section e runId) (\<lambda>run1.
                 bind_x (discover_section e runId) (\<lambda>run2.
                 bind_x (fetch_section e runId run2) (\<lambda>evidence.
                 bind_x (normalize_section e runId) (\<lambda>run4.
                 bind_x (extract_section e runId evidence) (\<lambda>extracted.
                 bind_x (verify_section e runId (fst extracted)) (\<lambda>verifiedClaims.
                 bind_x (upsert_section e v' runId verifiedClaims (snd extracted)) (\<lambda>run7.
                 bind_x (synthesize_section e runId) (\<lambda>run8.
                 publish_section e runId))))))))) s0)"
  proof (cases "run0 = None")
    case True
    then show ?thesis by simp
  next
    case False
    have tail: "same_outcome
        (bind_x (upsert_section e v runId vc evs) (\<lambda>run7.
           bind_x (synthesize_section e runId) (\<lambda>run8. publish_section e runId)) s7)
        (bind_x (upsert_section e v' runId vc evs) (\<lambda>run7.
           bind_x (synthesize_section e runId) (\<lambda>run8. publish_section e runId)) s7)"
      for vc evs s7
    proof (rule bind_x_same)
      show "same_outcome (upsert_section e v runId vc evs s7) (upsert_section e v' runId vc evs s7)"
        unfolding upsert_section_def by (rule wsr_same) (rule upsert_same)
    next
      fix a s1 s1' assume r: "same_but_vector s1 s1'"
      show "same_outcome
              (bind_x (synthesize_section e runId) (\<lambda>run8. publish_section e runId) s1)
              (bind_x (synthesize_section e runId) (\<lambda>run8. publish_section e runId) s1')"
      proof (rule bind_x_same)
        show "same_outcome (synthesize_section e runId s1) (synthesize_section e runId s1')"
          unfolding synthesize_section_def by (rule wsr_same) (rule r)
      next
        fix a t t' assume "same_but_vector t t'"
        then show "same_outcome (publish_section e runId t) (publish_section e runId t')"
          unfolding publish_section_def by (rule update_same)
      qed
    qed
    show ?thesis
      using False by (simp only: if_False) (intro bind_x_same_prefix tail)
  qed
qed

lemma executeStateMachine_same:
  "same_outcome (executeStateMachine e v runId s) (executeStateMachine e v' runId s)"
proof -
  obtain r s1 where a: "run_sections e v runId s = (r, s1)" by (cases "run_sections e v runId s")
  obtain r' s1' where b: "run_sections e v' runId s = (r', s1')"
    by (cases "run_sections e v' runId s")
  from run_sections_same [of e v runId s v'] a b
  have rr: "r' = r" and ss: "same_but_vector s1 s1'" by (simp_all add: same_outcome_def)
  show ?thesis
  proof (cases r)
    case (Inl x)
    obtain msg where x: "x = Exn msg" by (cases x)
    show ?thesis
      using a b rr Inl x update_same [OF ss]
      by (simp add: executeStateMachine_def)
  next
    case (Inr u)
    then show ?thesis using a b rr ss by (simp add: executeStateMachine_def same_outcome_def)
  qed
qed

subsection \<open>The order of the writes in the upsert stage\<close>

lemma createEvidence_writes:
  "writes (snd (createEvidence e ev s)) =
     writes s @ [D1Write (''evid_'' @ randomUUID e (ticks s))]"
  by (simp add: createEvidence_def draw_uuid_def Let_def split: option.splits)

lemma createClaim_writes:
  "writes (snd (createClaim e c s)) =
     writes s @ [D1Write (''claim_'' @ randomUUID e (ticks s))]"
  by (simp add: createClaim_def draw_uuid_def Let_def split: option.splits)

lemma store_evidence_d1_writes:
  "\<exists>ds. writes (store_evidence_d1 e evs s) = writes s @ ds \<and> list_all is_d1_write ds \<and>
         length ds = length evs"
proof (induction evs arbitrary: s)
  case Nil
  then show ?case by simp
next
  case (Cons ev evs)
  obtain ds where
    "writes (store_evidence_d1 e evs (snd (createEvidence e ev s))) =
       writes (snd (createEvidence e ev s)) @ ds" "list_all is_d1_write ds" "length ds = length evs"
    using Cons.IH by blast
  then show ?case
    by (intro exI [of _ "D1Write (''evid_'' @ randomUUID e (ticks s)) # ds"])
       (simp add: createEvidence_writes)
qed

lemma store_claims_d1_writes:
  "\<exists>ds. writes (store_claims_d1 e cs s) = writes s @ ds \<and> list_all is_d1_write ds \<and>
         length ds = length cs"
proof (induction cs arbitrary: s)
  case Nil
  then show ?case by simp
next
  case (Cons c cs)
  obtain ds where
    "writes (store_claims_d1 e cs (snd (createClaim e c s))) =
       writes (snd (createClaim e c s)) @ ds" "list_all is_d1_write ds" "length ds = length cs"
    using Cons.IH by blast
  then show ?case
    by (intro exI [of _ "D1Write (''claim_'' @ randomUUID e (ticks s)) # ds"])
       (simp add: createClaim_writes)
qed

lemma vectorize_upsert_writes:
  "writes (snd (vectorize_upsert v row s)) = writes s @ [VectorWrite (v_id row)]"
  by (simp add: vectorize_upsert_def Let_def split: option.splits)

lemma store_evidence_vector_writes:
  "\<exists>vs. writes (store_evidence_vector v evs s) = writes s @ vs \<and>
         list_all (\<lambda>w. \<not> is_d1_write w) vs"
proof (induction evs arbitrary: s)
  case Nil
  then show ?case by simp
next
  case (Cons ev evs)
  define X where "X = (case generateEmbedding v (ev_content_text ev) of
             Inl x \<Rightarrow> s | Inr embedding \<Rightarrow> snd (storeEvidence v ev embedding s))"
  have a: "\<exists>ws. writes X = writes s @ ws \<and> list_all (\<lambda>w. \<not> is_d1_write w) ws"
    unfolding X_def
    by (cases "generateEmbedding v (ev_content_text ev)")
       (simp_all add: storeEvidence_def vectorize_upsert_writes)
  have b: "store_evidence_vector v (ev # evs) s = store_evidence_vector v evs X"
    by (simp add: X_def)
  from a obtain ws where ws: "writes X = writes s @ ws" "list_all (\<lambda>w. \<not> is_d1_write w) ws"
    by blast
  from Cons.IH [of X] obtain vs where
    vs: "writes (store_evidence_vector v evs X) = writes X @ vs"
        "list_all (\<lambda>w. \<not> is_d1_write w) vs" by blast
  show ?case unfolding b using ws vs by (intro exI [of _ "ws @ vs"]) simp
qed

lemma store_claims_vector_writes:
  "\<exists>vs. writes (store_claims_vector v cs s) = writes s @ vs \<and>
         list_all (\<lambda>w. \<not> is_d1_write w) vs"
proof (induction cs arbitrary: s)
  case Nil
  then show ?case by simp
next
  case (Cons c cs)
  define X where "X = (case generateEmbedding v (cl_predicate c @ '' '' @ cl_object c) of
             Inl x \<Rightarrow> s | Inr embedding \<Rightarrow> snd (storeClaim v c embedding s))"
  have a: "\<exists>ws. writes X = writes s @ ws \<and> list_all (\<lambda>w. \<not> is_d1_write w) ws"
    unfolding X_def
    by (cases "generateEmbedding v (cl_predicate c @ '' '' @ cl_object c)")
       (simp_all add: storeClaim_def vectorize_upsert_writes)
  have b: "store_claims_vector v (c # cs) s = store_claims_vector v cs X"
    by (simp add: X_def)
  from a obtain ws where ws: "writes X = writes s @ ws" "list_all (\<lambda>w. \<not> is_d1_write w) ws"
    by blast
  from Cons.IH [of X] obtain vs where
    vs: "writes (store_claims_vector v cs X) = writes X @ vs"
        "list_all (\<lambda>w. \<not> is_d1_write w) vs" by blast
  show ?case unfolding b using ws vs by (intro exI [of _ "ws @ vs"]) simp
qed

lemma upsert_write_order:
  "\<exists>ds vs. writes (upsertClaimsAndEvidence e v claims evidence s) = writes s @ ds @ vs \<and>
      list_all is_d1_write ds \<and> length ds = length evidence + length claims \<and>
      list_all (\<lambda>w. \<not> is_d1_write w) vs"
proof -
  obtain d1s where d1s: "writes (store_evidence_d1 e evidence s) = writes s @ d1s"
      "list_all is_d1_write d1s" "length d1s = length evidence"
    using store_evidence_d1_writes by blast
  obtain d2s where d2s:
      "writes (store_claims_d1 e claims (store_evidence_d1 e evidence s)) =
         writes (store_evidence_d1 e evidence s) @ d2s"
      "list_all is_d1_write d2s" "length d2s = length claims"
    using store_claims_d1_writes by blast
  define S where "S = store_claims_d1 e claims (store_evidence_d1 e evidence s)"
  obtain v1s where v1s: "writes (store_evidence_vector v evidence S) = writes S @ v1s"
      "list_all (\<lambda>w. \<not> is_d1_write w) v1s"
    using store_evidence_vector_writes by blast
  obtain v2s where v2s:
      "writes (store_claims_vector v claims (store_evidence_vector v evidence S)) =
         writes (store_evidence_vector v evidence S) @ v2s"
      "list_all (\<lambda>w. \<not> is_d1_write w) v2s"
    using store_claims_vector_writes by blast
  show ?thesis
    unfolding upsertClaimsAndEvidence_def
    using d1s d2s v1s v2s
    by (intro exI [of _ "d1s @ d2s"] exI [of _ "v1s @ v2s"]) (simp add: S_def)
qed

subsection \<open>The evidence table when D1 refuses every evidence insert\<close>

lemma bind_x_evidence_rows:
  assumes "\<And>s. evidence_rows (snd (m s)) = evidence_rows s"
      and "\<And>a s. evidence_rows (snd (f a s)) = evidence_rows s"
  shows "evidence_rows (snd (bind_x m f s)) = evidence_rows s"
proof (cases "m s")
  case (Pair r s1)
  then have "evidence_rows s1 = evidence_rows s" using assms(1) [of s] by simp
  then show ?thesis using Pair assms(2) by (cases r) (simp_all add: bind_x_def)
qed

lemma createEvidence_refused:
  assumes "\<And>x. d1_fail e (InsertEvidence x) \<noteq> None"
  shows "evidence_rows (snd (createEvidence e ev s)) = evidence_rows s"
  using assms [of "ev\<lparr>ev_id := ''evid_'' @ randomUUID e (ticks s)\<rparr>"]
  by (auto simp: createEvidence_def draw_uuid_def Let_def evidence_rows_def split: option.splits)

lemma evidence_rows_cong: "d1 s' = d1 s \<Longrightarrow> evidence_rows s' = evidence_rows s"
  by (simp add: evidence_rows_def)

lemma extract_one_refused:
  assumes "\<And>x. d1_fail e (InsertEvidence x) \<noteq> None"
  shows "evidence_rows (snd (extract_one e ev s)) = evidence_rows s"
  using createEvidence_refused [OF assms]
  by (simp add: extract_one_def Let_def case_prod_beta evidence_rows_cong [OF convert_claims_d1]
      split: llm_reply.splits sum.splits)

lemma extractClaims_refused:
  assumes "\<And>x. d1_fail e (InsertEvidence x) \<noteq> None"
  shows "evidence_rows (snd (extractClaimsFromEvidence e evs s)) = evidence_rows s"
  by (induction evs arbitrary: s)
     (simp_all add: Let_def case_prod_beta extract_one_refused [OF assms])

lemma store_evidence_d1_refused:
  assumes "\<And>x. d1_fail e (InsertEvidence x) \<noteq> None"
  shows "evidence_rows (store_evidence_d1 e evs s) = evidence_rows s"
  by (induction evs arbitrary: s) (simp_all add: createEvidence_refused [OF assms])

lemma store_claims_d1_evidence: "evidence_rows (store_claims_d1 e cs s) = evidence_rows s"
  by (induction cs arbitrary: s) (simp_all add: createClaim_frames evidence_rows_def)

lemma upsert_refused:
  assumes "\<And>x. d1_fail e (InsertEvidence x) \<noteq> None"
  shows "evidence_rows (upsertClaimsAndEvidence e v cs evs s) = evidence_rows s"
  using upsert_vector_part [of e cs evs s v]
  by (simp add: same_but_vector_def evidence_rows_def
        store_claims_d1_evidence [unfolded evidence_rows_def]
        store_evidence_d1_refused [OF assms, unfolded evidence_rows_def])

lemma update_evidence_rows:
  "evidence_rows (snd (updateSubjectRunStatus e runId st a b c s)) = evidence_rows s"
  by (simp add: evidence_rows_def update_frame)

lemma wsr_evidence_rows:
  "evidence_rows (snd (write_status_and_reload e runId st a b s)) = evidence_rows s"
  unfolding write_status_and_reload_def
  by (rule bind_x_evidence_rows) (simp_all add: update_evidence_rows get_state)

lemma return_x_evidence_rows: "evidence_rows (snd (return_x a s)) = evidence_rows s"
  by (simp add: return_x_def)

lemma fetch_section_evidence_rows:
  "evidence_rows (snd (fetch_section e runId run s)) = evidence_rows s"
proof (cases run)
  case None
  then show ?thesis by (simp add: fetch_section_def throw_x_def)
next
  case (Some r)
  have h: "evidence_rows (snd (harvestEvidence e sub srcs it m s)) = evidence_rows s"
    for sub srcs it m
    by (simp add: evidence_rows_def harvest_evidence_tbl)
  show ?thesis
    using Some
    by (simp add: fetch_section_def case_prod_beta Let_def bind_x_evidence_rows
          wsr_evidence_rows return_x_evidence_rows h)
qed

lemma run_sections_refused:
  assumes "\<And>x. d1_fail e (InsertEvidence x) \<noteq> None"
  shows "evidence_rows (snd (run_sections e v runId s)) = evidence_rows s"
proof -
  note r = extractClaims_refused [OF assms] upsert_refused [OF assms]
  have ex: "evidence_rows (snd (extract_section e runId evs s)) = evidence_rows s" for evs s
    by (simp add: extract_section_def case_prod_beta Let_def bind_x_evidence_rows
          wsr_evidence_rows return_x_evidence_rows r)
  have up: "evidence_rows (snd (upsert_section e v runId cs evs s)) = evidence_rows s"
    for cs evs s
    by (simp add: upsert_section_def wsr_evidence_rows r)
  have ve: "evidence_rows (snd (verify_section e runId cs s)) = evidence_rows s" for cs s
    by (simp add: verify_section_def bind_x_evidence_rows wsr_evidence_rows
          return_x_evidence_rows)
  show ?thesis
    unfolding run_sections_def
    by (intro bind_x_evidence_rows)
       (simp_all add: get_state return_x_evidence_rows bind_x_evidence_rows
          fetch_section_evidence_rows ex up ve wsr_evidence_rows update_evidence_rows
          intake_section_def discover_section_def normalize_section_def
          synthesize_section_def publish_section_def)
qed

lemma executeStateMachine_refused:
  assumes "\<And>x. d1_fail e (InsertEvidence x) \<noteq> None"
  shows "evidence_rows (snd (executeStateMachine e v runId s)) = evidence_rows s"
proof (cases "run_sections e v runId s")
  case (Pair r s1)
  then have "evidence_rows s1 = evidence_rows s"
    using run_sections_refused [OF assms, of v runId s] by simp
  then show ?thesis
    using Pair
    by (cases r) (auto simp: executeStateMachine_def update_evidence_rows split: exn.splits)
qed

lemma executeStateMachine_evidence_count:
  assumes sel: "d1_fail e (SelectRun runId) = None"
      and upd: "\<forall>st \<in> set status_order. d1_fail e (UpdateRun runId st) = None"
      and row: "run_row runId s = Some r0"
  shows "map_option run_evidence_count (run_row runId (snd (executeStateMachine e v runId s))) =
         Some (length (fst (harvestEvidence e (run_subject_name r0) [''web'', ''linkedin'']
                 (read_inputType s) (read_maxApiCalls s)
                 (advanced e runId St_fetch None None None
                    (advanced e runId St_discover None None None s)))))"
proof -
  have u: "d1_fail e (UpdateRun runId St_discover) = None"
          "d1_fail e (UpdateRun runId St_fetch) = None"
          "d1_fail e (UpdateRun runId St_normalize) = None"
          "d1_fail e (UpdateRun runId St_extract) = None"
          "d1_fail e (UpdateRun runId St_verify) = None"
          "d1_fail e (UpdateRun runId St_upsert) = None"
          "d1_fail e (UpdateRun runId St_synthesize) = None"
          "d1_fail e (UpdateRun runId St_publish) = None"
          "d1_fail e (UpdateRun runId St_completed) = None"
    using upd by (simp_all add: status_order_def)
  show ?thesis
    unfolding executeStateMachine_def
      run_sections_def intake_section_def discover_section_def fetch_section_def
      normalize_section_def extract_section_def verify_section_def upsert_section_def
      synthesize_section_def publish_section_def write_status_and_reload_def
    using row u
    by (simp add: bind_x_def return_x_def get_ok [OF sel] update_ok_eq advanced_row
          run_row_frames case_prod_beta Let_def set_run_def read_inputType_def
          read_maxApiCalls_def advanced_frames)
qed


section \<open>Properties of the fallback synthesis\<close>

lemma completenessScore_spec: "completenessScore p = spec_completeness p"
  by (simp add: completenessScore_def spec_completeness_def)

lemma completenessScore_range: "0 \<le> completenessScore p \<and> completenessScore p \<le> 1"
  by (simp add: completenessScore_def)




section \<open>Properties of the canonical store\<close>

text \<open>
  Claim C5, as the code has it. \<open>createEvidence\<close> does not look at the subject or the
  hash of the rows already stored: whenever D1 accepts the statement and the fresh id
  is not yet a primary key, the record is appended under that fresh id, whatever the
  table holds. (What a later write of the same evidence with an extraction should do
  is left out here.)
\<close>

theorem createEvidence_always_appends:
  assumes "d1_fail e (InsertEvidence (ev\<lparr>ev_id := ''evid_'' @ randomUUID e (ticks s)\<rparr>)) = None"
      and "''evid_'' @ randomUUID e (ticks s) \<notin> set (map ev_id (evidence_tbl (d1 s)))"
  shows "fst (createEvidence e ev s) = Inr (ev\<lparr>ev_id := ''evid_'' @ randomUUID e (ticks s)\<rparr>) \<and>
         evidence_tbl (d1 (snd (createEvidence e ev s))) =
           evidence_tbl (d1 s) @ [ev\<lparr>ev_id := ''evid_'' @ randomUUID e (ticks s)\<rparr>]"
  using assms by (simp add: createEvidence_def draw_uuid_def Let_def)

theorem createEvidence_always_appends_witness:
  "fst (createEvidence env0 ev_alice world_alice) = Inr (ev_alice\<lparr>ev_id := ''evid_1''\<rparr>) \<and>
   map (\<lambda>r. (ev_id r, ev_subject_id r, ev_hash r))
     (evidence_tbl (d1 (snd (createEvidence env0 ev_alice world_alice)))) =
     [(''evid_0'', alice_url, ''h0''), (''evid_1'', alice_url, ''h0'')]"
proof -
  have u: "''evid_'' @ randomUUID env0 (ticks world_alice) = ''evid_1''"
    by code_simp
  have h1: "d1_fail env0 (InsertEvidence
              (ev_alice\<lparr>ev_id := ''evid_'' @ randomUUID env0 (ticks world_alice)\<rparr>)) = None"
    by (simp add: env0_def)
  have h2: "''evid_'' @ randomUUID env0 (ticks world_alice)
              \<notin> set (map ev_id (evidence_tbl (d1 world_alice)))"
    by code_simp
  have t: "evidence_tbl (d1 world_alice) = [ev_alice\<lparr>ev_id := ''evid_0''\<rparr>]"
    by (simp add: world_alice_def)
  show ?thesis
    using createEvidence_always_appends [OF h1 h2] unfolding u t
    by (simp add: ev_alice_def)
qed

text \<open>The claim fails on a store that already holds the evidence as row \<open>evid_0\<close>: writing
  the same record again adds row \<open>evid_1\<close> with the same subject and hash, and writing row
  \<open>evid_0\<close> itself with an extraction attached leaves \<open>evid_0\<close> without extraction and adds
  \<open>evid_1\<close>.\<close>

theorem createEvidence_not_idempotent:
  "map (\<lambda>r. (ev_id r, ev_subject_id r, ev_hash r))
     (evidence_tbl (d1 (snd (createEvidence env0 ev_alice world_alice)))) =
     [(''evid_0'', alice_url, ''h0''), (''evid_1'', alice_url, ''h0'')] \<and>
   map (\<lambda>r. (ev_id r, ev_extraction r))
     (evidence_tbl (d1 (snd (createEvidence env0
        (ev_alice\<lparr>ev_id := ''evid_0'', ev_extraction := Some extraction_acme\<rparr>) world_alice)))) =
     [(''evid_0'', None), (''evid_1'', Some extraction_acme)]"
  by code_simp


section \<open>Properties of the verify stage\<close>


lemma verify_one_untag: "verify_one e c = Some c' \<Longrightarrow> untag c' = untag c"
  by (auto simp: verify_one_def untag_def Let_def split: if_splits option.splits)

lemma verify_one_kept:
  "verify_one e c \<noteq> None \<longleftrightarrow>
     vr_approved (verifyClaim e c) \<and> vr_policy_tags (verifyClaim e c) \<noteq> None"
  by (auto simp: verify_one_def Let_def split: option.splits)

lemma verifyClaim_llm_failed:
  "(\<forall>r. verification_llm e c \<noteq> LlmParsed r) \<Longrightarrow> \<not> vr_approved (verifyClaim e c)"
  by (cases "verification_llm e c") (auto simp: verifyClaim_def verification_failed_def)

lemma verifyClaims_untag:
  "map untag (verifyClaims e cs) = map untag (filter (\<lambda>c. verify_one e c \<noteq> None) cs)"
  by (induction cs) (auto split: option.splits dest: verify_one_untag)

lemma verifyClaims_origin:
  "c' \<in> set (verifyClaims e cs) \<Longrightarrow> \<exists>c \<in> set cs. verify_one e c = Some c'"
  by (induction cs) (auto split: option.splits)

text \<open>
  Claim C10. The verify stage returns its input with some claims left out and nothing
  else changed but \<open>policy_tags\<close>: blanking the tags on both sides, the output is a
  subsequence of the input, namely the claims the verifier approved (with an array of
  tags), in their order; every returned claim is an input claim with new tags; a claim
  whose verification request fails is not approved, hence dropped. The function returns
  a list for every input: no exception leaves the stage.
\<close>

theorem verifyClaims_subsequence_frame:
  "subseq (map untag (verifyClaims e claims)) (map untag claims) \<and>
   map untag (verifyClaims e claims) =
     map untag (filter (\<lambda>c. vr_approved (verifyClaim e c) \<and>
                             vr_policy_tags (verifyClaim e c) \<noteq> None) claims) \<and>
   (\<forall>c' \<in> set (verifyClaims e claims).
      \<exists>c \<in> set claims. c' = c\<lparr>cl_policy_tags := cl_policy_tags c'\<rparr>) \<and>
   (\<forall>c \<in> set claims. (\<forall>r. verification_llm e c \<noteq> LlmParsed r) \<longrightarrow>
      \<not> vr_approved (verifyClaim e c))"
proof -
  have eq: "map untag (verifyClaims e claims) =
              map untag (filter (\<lambda>c. vr_approved (verifyClaim e c) \<and>
                                      vr_policy_tags (verifyClaim e c) \<noteq> None) claims)"
  proof -
    have p: "(\<lambda>c. verify_one e c \<noteq> None) =
               (\<lambda>c. vr_approved (verifyClaim e c) \<and> vr_policy_tags (verifyClaim e c) \<noteq> None)"
      by (rule ext) (rule verify_one_kept)
    show ?thesis using verifyClaims_untag [of e claims] unfolding p .
  qed
  have sub: "subseq (map untag (verifyClaims e claims)) (map untag claims)"
    unfolding eq by (simp add: subseq_map)
  have frame: "\<forall>c' \<in> set (verifyClaims e claims).
      \<exists>c \<in> set claims. c' = c\<lparr>cl_policy_tags := cl_policy_tags c'\<rparr>"
  proof
    fix c' assume "c' \<in> set (verifyClaims e claims)"
    then obtain c where c: "c \<in> set claims" "verify_one e c = Some c'"
      using verifyClaims_origin by blast
    from c(2) have "c' = c\<lparr>cl_policy_tags := cl_policy_tags c'\<rparr>"
      by (auto simp: verify_one_def Let_def split: if_splits option.splits)
    with c(1) show "\<exists>c \<in> set claims. c' = c\<lparr>cl_policy_tags := cl_policy_tags c'\<rparr>" by blast
  qed
  show ?thesis using eq sub frame verifyClaim_llm_failed by blast
qed

theorem verifyClaims_subsequence_frame_witness:
  "subseq (map untag (verifyClaims env_verify [claim_alice, claim_phone]))
     (map untag [claim_alice, claim_phone]) \<and>
   verifyClaims env_verify [claim_alice, claim_phone] =
     [claim_alice\<lparr>cl_policy_tags := ''verified:high''\<rparr>] \<and>
   \<not> vr_approved (verifyClaim env_verify claim_phone)"
proof -
  have a: "verifyClaims env_verify [claim_alice, claim_phone] =
             [claim_alice\<lparr>cl_policy_tags := ''verified:high''\<rparr>]"
    by code_simp
  have b: "\<forall>r. verification_llm env_verify claim_phone \<noteq> LlmParsed r"
    by (simp add: env_verify_def claim_phone_def)
  show ?thesis
    using verifyClaims_subsequence_frame [of env_verify "[claim_alice, claim_phone]"] a b
    by simp
qed


section \<open>Properties of the polling protocol\<close>








section \<open>Properties of the harvester's input check\<close>










section \<open>Properties of the fetch stage\<close>

text \<open>
  Claim C7, as the code has it. When the fetch section ends without an exception, the run
  row is in status \<open>normalize\<close> and its evidence count is the number of evidence records
  the harvester returned (also when that list is empty), but the evidence table is what
  it was before the section: the section writes no evidence. Evidence rows are written
  later, by the extract section (for an evidence whose extraction the LLM returned) and
  by the upsert section.
\<close>

theorem fetch_section_counts_without_persisting:
  assumes "fst (fetch_section e runId (Some r) s) = Inr evidence"
      and "run_row runId s = Some r0"
  shows "evidence = fst (harvestEvidence e (run_subject_name r) [''web'', ''linkedin'']
                            (read_inputType s) (read_maxApiCalls s) s) \<and>
         at_status runId St_normalize (run_error_message r0)
           (snd (fetch_section e runId (Some r) s)) \<and>
         map_option run_evidence_count (run_row runId (snd (fetch_section e runId (Some r) s))) =
           Some (length evidence) \<and>
         evidence_rows (snd (fetch_section e runId (Some r) s)) = evidence_rows s"
proof -
  obtain ev0 s1 where H: "harvestEvidence e (run_subject_name r) [''web'', ''linkedin'']
                            (read_inputType s) (read_maxApiCalls s) s = (ev0, s1)"
    by (cases "harvestEvidence e (run_subject_name r) [''web'', ''linkedin'']
                            (read_inputType s) (read_maxApiCalls s) s")
  have f: "fetch_section e runId (Some r) s =
             bind_x (write_status_and_reload e runId St_normalize (Some (length ev0)) None)
               (\<lambda>run'. return_x ev0) s1"
    by (simp add: fetch_section_def H)
  obtain s' where b: "bind_x (write_status_and_reload e runId St_normalize (Some (length ev0)) None)
               (\<lambda>run'. return_x ev0) s1 = (Inr evidence, s')"
    using assms(1) unfolding f
    by (cases "bind_x (write_status_and_reload e runId St_normalize (Some (length ev0)) None)
               (\<lambda>run'. return_x ev0) s1") simp
  from b obtain a s2 where
      w: "write_status_and_reload e runId St_normalize (Some (length ev0)) None s1 = (Inr a, s2)"
      and r: "return_x ev0 s2 = (Inr evidence, s')"
    by (rule bind_x_InrE)
  from r have e0: "evidence = ev0" and s2: "s' = s2" by (simp_all add: return_x_def)
  from wsr_InrD [OF w] have upd: "d1_fail e (UpdateRun runId St_normalize) = None"
    and st: "s2 = snd (updateSubjectRunStatus e runId St_normalize (Some (length ev0)) None None s1)"
    by simp_all
  have row1: "run_row runId s1 = Some r0"
    using harvest_runs [of e "run_subject_name r" "[''web'', ''linkedin'']" "read_inputType s"
            "read_maxApiCalls s" s] H assms(2)
    by (simp add: run_row_def)
  have rows1: "evidence_rows s1 = evidence_rows s"
    using harvest_evidence_tbl [of e "run_subject_name r" "[''web'', ''linkedin'']"
            "read_inputType s" "read_maxApiCalls s" s] H
    by (simp add: evidence_rows_def)
  have fin: "snd (fetch_section e runId (Some r) s) = s2"
    unfolding f b s2 by simp
  show ?thesis
    unfolding fin st
    using H e0 row1 rows1 update_ok(2) [OF upd, of "Some (length ev0)" None None s1]
    by (simp add: at_status_def set_run_def update_evidence_rows)
qed

theorem fetch_section_counts_without_persisting_witness:
  "[ev_harvested] = fst (harvestEvidence env0 alice_url [''web'', ''linkedin'']
                      (read_inputType world_run) (read_maxApiCalls world_run) world_run) \<and>
   at_status ''run_0'' St_normalize None
     (snd (fetch_section env0 ''run_0'' (Some run_alice) world_run)) \<and>
   map_option run_evidence_count
     (run_row ''run_0'' (snd (fetch_section env0 ''run_0'' (Some run_alice) world_run))) = Some 1 \<and>
   at_status ''run_0'' St_normalize None
     (snd (fetch_section env_provider_down ''run_0'' (Some run_alice) world_run)) \<and>
   map_option run_evidence_count
     (run_row ''run_0''
        (snd (fetch_section env_provider_down ''run_0'' (Some run_alice) world_run))) = Some 0"
proof -
  have a: "fst (fetch_section env0 ''run_0'' (Some run_alice) world_run) = Inr [ev_harvested]"
    by code_simp
  have b: "fst (fetch_section env_provider_down ''run_0'' (Some run_alice) world_run) = Inr []"
    by code_simp
  have row: "run_row ''run_0'' world_run = Some run_alice" by code_simp
  have n: "run_subject_name run_alice = alice_url" "run_error_message run_alice = None"
    by (simp_all add: run_alice_def)
  show ?thesis
    using fetch_section_counts_without_persisting [OF a row]
          fetch_section_counts_without_persisting [OF b row] n
    by simp
qed

text \<open>The claim fails on the direct-URL run: the fetch section returns one evidence and
  leaves the run in \<open>normalize\<close> with an empty evidence table.\<close>

theorem fetch_section_persists_nothing:
  "fst (fetch_section env0 ''run_0'' (Some run_alice) world_run) = Inr [ev_harvested] \<and>
   at_status ''run_0'' St_normalize None
     (snd (fetch_section env0 ''run_0'' (Some run_alice) world_run)) \<and>
   evidence_rows (snd (fetch_section env0 ''run_0'' (Some run_alice) world_run)) = []"
  by code_simp


section \<open>Properties of the upsert stage and of the error handling\<close>

lemma run_sections_throws_when_a_status_write_fails:
  assumes "run_row runId s \<noteq> None"
      and "\<exists>st \<in> set status_order. d1_fail e (UpdateRun runId st) \<noteq> None"
  shows "\<exists>msg. fst (run_sections e v runId s) = Inl (Exn msg)"
proof (cases "run_sections e v runId s")
  case (Pair r s')
  show ?thesis
  proof (cases r)
    case (Inl x)
    then show ?thesis using Pair by (cases x) simp
  next
    case (Inr u)
    then have "\<forall>st \<in> set status_order. d1_fail e (UpdateRun runId st) = None"
      using run_sections_Inr_all_written [of e v runId s u s'] Pair assms(1) by simp
    then show ?thesis using assms(2) by auto
  qed
qed

text \<open>
  Claim C1, as the code has it. The upsert stage makes all its canonical-store writes, one
  per evidence and one per claim, before any vector-store write. The vector store has no
  influence on the outcome of a run: with any two behaviours of the embedding model and of
  the vector index, the run returns the same result and leaves the same canonical store,
  so a vector failure never puts a run in \<open>error\<close>. Among the canonical writes, it is the
  status writes that abort the run: if the run row exists, some status write of the stage
  sequence fails and the write of status \<open>error\<close> succeeds, the run ends in \<open>error\<close> with a
  message. If the read of the run and all status writes succeed, the run ends \<open>completed\<close>
  with the error message it had, whatever the inserts of evidence and claims do: the
  upsert stage catches their failures one by one.
\<close>

theorem upsert_order_and_error_policy:
  "(\<exists>ds vs. writes (upsertClaimsAndEvidence e v claims evidence s) = writes s @ ds @ vs \<and>
      list_all is_d1_write ds \<and> length ds = length evidence + length claims \<and>
      list_all (\<lambda>w. \<not> is_d1_write w) vs) \<and>
   fst (executeStateMachine e v runId s) = fst (executeStateMachine e v' runId s) \<and>
   d1 (snd (executeStateMachine e v runId s)) = d1 (snd (executeStateMachine e v' runId s)) \<and>
   (run_row runId s \<noteq> None \<and>
    (\<exists>st \<in> set status_order. d1_fail e (UpdateRun runId st) \<noteq> None) \<and>
    d1_fail e (UpdateRun runId St_error) = None \<longrightarrow>
      (\<exists>msg. at_status runId St_error (Some msg) (snd (executeStateMachine e v runId s)))) \<and>
   (d1_fail e (SelectRun runId) = None \<and>
    (\<forall>st \<in> set status_order. d1_fail e (UpdateRun runId st) = None) \<and>
    run_row runId s = Some r0 \<longrightarrow>
      at_status runId St_completed (run_error_message r0)
        (snd (executeStateMachine e v runId s)))"
proof -
  have a: "\<exists>ds vs. writes (upsertClaimsAndEvidence e v claims evidence s) = writes s @ ds @ vs \<and>
      list_all is_d1_write ds \<and> length ds = length evidence + length claims \<and>
      list_all (\<lambda>w. \<not> is_d1_write w) vs"
    by (rule upsert_write_order)
  have b: "fst (executeStateMachine e v runId s) = fst (executeStateMachine e v' runId s) \<and>
           d1 (snd (executeStateMachine e v runId s)) = d1 (snd (executeStateMachine e v' runId s))"
    using executeStateMachine_same [of e v runId s v']
    by (simp add: same_outcome_def same_but_vector_def)
  have c: "\<exists>msg. at_status runId St_error (Some msg) (snd (executeStateMachine e v runId s))"
    if p: "run_row runId s \<noteq> None"
       and q: "\<exists>st \<in> set status_order. d1_fail e (UpdateRun runId st) \<noteq> None"
       and r: "d1_fail e (UpdateRun runId St_error) = None"
  proof -
    obtain msg where "fst (run_sections e v runId s) = Inl (Exn msg)"
      using run_sections_throws_when_a_status_write_fails [OF p q] by blast
    from executeStateMachine_catch [OF this r p] show ?thesis by blast
  qed
  have d: "at_status runId St_completed (run_error_message r0)
             (snd (executeStateMachine e v runId s))"
    if p: "d1_fail e (SelectRun runId) = None"
       and q: "\<forall>st \<in> set status_order. d1_fail e (UpdateRun runId st) = None"
       and r: "run_row runId s = Some r0"
    using executeStateMachine_completes [OF p q r] by simp
  show ?thesis using a b c d by blast
qed

lemma world_run_row: "run_row ''run_0'' world_run = Some run_alice"
  by code_simp

theorem upsert_order_and_error_policy_witness:
  "(\<exists>msg. at_status ''run_0'' St_error (Some msg)
            (snd (executeStateMachine env_status_fails vec0 ''run_0'' world_run))) \<and>
   at_status ''run_0'' St_completed None
     (snd (executeStateMachine env_insert_fails vec_down ''run_0'' world_run)) \<and>
   d1 (snd (executeStateMachine env0 vec0 ''run_0'' world_run)) =
     d1 (snd (executeStateMachine env0 vec_down ''run_0'' world_run))"
proof -
  have f: "\<exists>st \<in> set status_order. d1_fail env_status_fails (UpdateRun ''run_0'' st) \<noteq> None"
    by (simp add: status_order_def env_status_fails_def)
  have g: "d1_fail env_status_fails (UpdateRun ''run_0'' St_error) = None"
    by (simp add: env_status_fails_def)
  have h: "d1_fail env_insert_fails (SelectRun ''run_0'') = None"
          "\<forall>st \<in> set status_order. d1_fail env_insert_fails (UpdateRun ''run_0'' st) = None"
    by (simp_all add: env_insert_fails_def)
  have n: "run_error_message run_alice = None" by (simp add: run_alice_def)
  show ?thesis
    using upsert_order_and_error_policy
            [where e = env_status_fails and v = vec0 and v' = vec0 and claims = "[]"
               and evidence = "[]" and s = world_run and runId = "''run_0''" and ?r0.0 = run_alice]
          upsert_order_and_error_policy
            [where e = env_insert_fails and v = vec_down and v' = vec_down and claims = "[]"
               and evidence = "[]" and s = world_run and runId = "''run_0''" and ?r0.0 = run_alice]
          upsert_order_and_error_policy
            [where e = env0 and v = vec0 and v' = vec_down and claims = "[]"
               and evidence = "[]" and s = world_run and runId = "''run_0''" and ?r0.0 = run_alice]
          f g h n world_run_row
    by simp
qed

text \<open>The claim fails where D1 refuses every insert of evidence and of claims: the insert
  throws, yet the run ends \<open>completed\<close> with no error message, with evidence count 1 and an
  empty evidence table.\<close>

theorem failed_inserts_do_not_stop_the_run:
  "fst (createEvidence env_insert_fails ev_harvested world_run) =
     Inl (Exn ''D1_ERROR: insert failed'') \<and>
   at_status ''run_0'' St_completed None
     (snd (executeStateMachine env_insert_fails vec0 ''run_0'' world_run)) \<and>
   map_option run_evidence_count
     (run_row ''run_0'' (snd (executeStateMachine env_insert_fails vec0 ''run_0'' world_run))) =
     Some 1 \<and>
   evidence_rows (snd (executeStateMachine env_insert_fails vec0 ''run_0'' world_run)) = []"
proof -
  have h: "d1_fail env_insert_fails (SelectRun ''run_0'') = None"
          "\<forall>st \<in> set status_order. d1_fail env_insert_fails (UpdateRun ''run_0'' st) = None"
    by (simp_all add: env_insert_fails_def)
  have r: "\<And>x. d1_fail env_insert_fails (InsertEvidence x) \<noteq> None"
    by (simp add: env_insert_fails_def)
  have n: "run_error_message run_alice = None" by (simp add: run_alice_def)
  have a: "fst (createEvidence env_insert_fails ev_harvested world_run) =
             Inl (Exn ''D1_ERROR: insert failed'')"
    by code_simp
  have c: "length (fst (harvestEvidence env_insert_fails (run_subject_name run_alice)
                 [''web'', ''linkedin''] (read_inputType world_run) (read_maxApiCalls world_run)
                 (advanced env_insert_fails ''run_0'' St_fetch None None None
                    (advanced env_insert_fails ''run_0'' St_discover None None None world_run)))) = 1"
    by code_simp
  have e: "evidence_rows world_run = []" by code_simp
  show ?thesis
    using a n e
      executeStateMachine_completes [OF h world_run_row, where v = vec0]
      executeStateMachine_evidence_count [OF h world_run_row, where v = vec0]
      executeStateMachine_refused [OF r, where v = vec0 and runId = "''run_0''" and s = world_run]
    unfolding c
    by simp
qed


section \<open>Properties of the harvester's budget\<close>


section \<open>Properties of the stored provenance\<close>

text \<open>
  Claim C3 at a concrete input. For the direct URL, with nothing failing, the harvester
  gives the evidence the id \<open>evid_1\<close> and the claim built from it carries that id in its
  provenance. The canonical store gives every inserted evidence a fresh id, and the
  evidence is inserted twice (by the extract stage and by the upsert stage), as rows
  \<open>evid_2\<close> and \<open>evid_4\<close>: the stored claim names an evidence id that no stored evidence has.
\<close>

theorem stored_provenance_dangles:
  "map (\<lambda>c. pv_evidence_id (cl_provenance c)) (claims_tbl (d1 stages_alice)) = [''evid_1''] \<and>
   map ev_id (evidence_tbl (d1 stages_alice)) = [''evid_2'', ''evid_4''] \<and>
   \<not> provenance_resolves (d1 stages_alice)"
  by code_simp

section \<open>Properties of the stored policy tags\<close>









end
